theory Spec2Isabelle
  imports Main
begin

section \<open>Input values and validation errors\<close>

text \<open>
  The classes of \<^verbatim>\<open>connector_script.py\<close> and \<^verbatim>\<open>notebook.py\<close> are pydantic models:
  constructing one validates a mapping of field names to plain values (what a parsed YAML
  or JSON document holds). The values are modelled by \<open>json\<close> (numbers as integers), a
  Python dict \<open>{k: v, ...}\<close> by \<open>JDict\<close> of its items, read through \<open>map_of\<close>.
  A constructor call \<open>Cls(**d)\<close> is the function \<open>validate_Cls d\<close> on the map \<open>d\<close> of the
  keyword arguments. It returns \<open>Inr\<close> of the instance, or \<open>Inl\<close> of the error details
  of the \<^verbatim>\<open>ValidationError\<close> that pydantic raises: pydantic validates every field, in the
  order of declaration, collects all the errors, and runs the model validators of mode
  \<^verbatim>\<open>after\<close> only when no field failed. Keys that name no field are ignored.
\<close>

datatype json =
    JNull
  | JBool bool
  | JInt int
  | JStr string
  | JList "json list"
  | JDict "(string \<times> json) list"

datatype loc_item = Key string | Idx nat

datatype error_type =
    Missing
  | StringType
  | ListType
  | DictType
  | ModelType
  | ModelAttributesType
  | LiteralError
  | UnionTagNotFound
  | UnionTagInvalid
  | ValueError string

type_synonym error_detail = "loc_item list \<times> error_type"

type_synonym 'a result = "error_detail list + 'a"

definition errors_of :: "'a result \<Rightarrow> error_detail list" where
  "errors_of r = (case r of Inl es \<Rightarrow> es | Inr v \<Rightarrow> [])"

definition at :: "loc_item \<Rightarrow> 'a result \<Rightarrow> 'a result" where
  "at k r = (case r of Inl es \<Rightarrow> Inl (map (\<lambda>(l, t). (k # l, t)) es) | Inr v \<Rightarrow> Inr v)"

definition ap :: "('a \<Rightarrow> 'b) result \<Rightarrow> 'a result \<Rightarrow> 'b result" where
  "ap f x =
     (case f of
        Inl es \<Rightarrow> (case x of Inl es' \<Rightarrow> Inl (es @ es') | Inr a \<Rightarrow> Inl es)
      | Inr g \<Rightarrow> (case x of Inl es' \<Rightarrow> Inl es' | Inr a \<Rightarrow> Inr (g a)))"

definition map_result :: "('a \<Rightarrow> 'b) \<Rightarrow> 'a result \<Rightarrow> 'b result" where
  "map_result g r = (case r of Inl es \<Rightarrow> Inl es | Inr v \<Rightarrow> Inr (g v))"

definition and_then :: "'a result \<Rightarrow> ('a \<Rightarrow> 'b result) \<Rightarrow> 'b result" where
  "and_then r g = (case r of Inl es \<Rightarrow> Inl es | Inr v \<Rightarrow> g v)"

subsection \<open>Field types\<close>

fun v_str :: "json \<Rightarrow> string result" where
  "v_str (JStr s) = Inr s"
| "v_str x = Inl [([], StringType)]"

definition v_literal :: "string \<Rightarrow> json \<Rightarrow> string result" where
  "v_literal l x = (if x = JStr l then Inr l else Inl [([], LiteralError)])"

definition v_optional :: "(json \<Rightarrow> 'a result) \<Rightarrow> json \<Rightarrow> 'a option result" where
  "v_optional v x = (case x of JNull \<Rightarrow> Inr None | _ \<Rightarrow> map_result Some (v x))"

fun v_items :: "(json \<Rightarrow> 'a result) \<Rightarrow> nat \<Rightarrow> json list \<Rightarrow> 'a list result" where
  "v_items v i [] = Inr []"
| "v_items v i (x # xs) = ap (ap (Inr Cons) (at (Idx i) (v x))) (v_items v (Suc i) xs)"

definition v_list :: "(json \<Rightarrow> 'a result) \<Rightarrow> json \<Rightarrow> 'a list result" where
  "v_list v x = (case x of JList xs \<Rightarrow> v_items v 0 xs | _ \<Rightarrow> Inl [([], ListType)])"

fun v_values :: "(json \<Rightarrow> 'a result) \<Rightarrow> (string \<times> json) list \<Rightarrow> (string \<times> 'a) list result" where
  "v_values v [] = Inr []"
| "v_values v ((k, x) # kvs) =
     ap (ap (Inr (\<lambda>y ys. (k, y) # ys)) (at (Key k) (v x))) (v_values v kvs)"

definition v_dict :: "(json \<Rightarrow> 'a result) \<Rightarrow> json \<Rightarrow> (string \<times> 'a) list result" where
  "v_dict v x = (case x of JDict kvs \<Rightarrow> v_values v kvs | _ \<Rightarrow> Inl [([], DictType)])"

definition v_any :: "json \<Rightarrow> json result" where
  "v_any x = Inr x"

definition v_model :: "((string \<rightharpoonup> json) \<Rightarrow> 'a result) \<Rightarrow> json \<Rightarrow> 'a result" where
  "v_model validate x =
     (case x of JDict kvs \<Rightarrow> validate (map_of kvs) | _ \<Rightarrow> Inl [([], ModelType)])"

text \<open>
  A field declared with \<^verbatim>\<open>Field(...)\<close> or without a default is required; a field with a
  default (or a \<^verbatim>\<open>default_factory\<close>) takes it when the key is absent, and the default
  itself is not validated.
\<close>

definition required :: "(string \<rightharpoonup> json) \<Rightarrow> string \<Rightarrow> (json \<Rightarrow> 'a result) \<Rightarrow> 'a result" where
  "required d k v = (case d k of None \<Rightarrow> Inl [([Key k], Missing)] | Some x \<Rightarrow> at (Key k) (v x))"

definition with_default ::
  "(string \<rightharpoonup> json) \<Rightarrow> string \<Rightarrow> 'a \<Rightarrow> (json \<Rightarrow> 'a result) \<Rightarrow> 'a result" where
  "with_default d k dflt v = (case d k of None \<Rightarrow> Inr dflt | Some x \<Rightarrow> at (Key k) (v x))"

subsection \<open>Strings\<close>

text \<open>
  A Python \<^verbatim>\<open>str\<close> is a sequence of Unicode code points, and \<^verbatim>\<open>str.lower\<close> is not a
  map over 8-bit characters: U+0130 lower-cases to two code points, and the capital sigma
  U+03A3 to U+03C2 or U+03C3 depending on its context. The functions \<open>str_lower\<close>,
  \<open>str_replace\<close> and \<open>str_default_id\<close> below are \<^verbatim>\<open>lower\<close>, \<^verbatim>\<open>replace\<close> and the
  expression of \<^verbatim>\<open>set_default_id\<close> on lists of code points of any size. \<open>str_lower\<close>
  follows CPython: every code point is replaced by its full lowercase mapping, except the
  capital sigma, which becomes the final sigma when a cased letter precedes it and none
  follows it, case-ignorable code points skipped on both sides. The three tables of the
  Unicode character database that this reads (the full lowercase mapping and the
  properties Cased and Case_Ignorable) are not part of the repository: they are the
  parameter \<open>db\<close>.
\<close>

record unicode_db =
  to_lower_full :: "nat \<Rightarrow> nat list"
  is_cased :: "nat \<Rightarrow> bool"
  is_case_ignorable :: "nat \<Rightarrow> bool"

definition handle_capital_sigma :: "unicode_db \<Rightarrow> nat list \<Rightarrow> nat \<Rightarrow> nat" where
  "handle_capital_sigma db s i =
     (let final_sigma =
        (case dropWhile (is_case_ignorable db) (rev (take i s)) of
           [] \<Rightarrow> False
         | c # before \<Rightarrow>
             is_cased db c \<and>
             (case dropWhile (is_case_ignorable db) (drop (Suc i) s) of
                [] \<Rightarrow> True
              | c' # after \<Rightarrow> \<not> is_cased db c'))
      in if final_sigma then 0x3C2 else 0x3C3)"

definition lower_ucs4 :: "unicode_db \<Rightarrow> nat list \<Rightarrow> nat \<Rightarrow> nat list" where
  "lower_ucs4 db s i =
     (if s ! i = 0x3A3 then [handle_capital_sigma db s i] else to_lower_full db (s ! i))"

definition str_lower :: "unicode_db \<Rightarrow> nat list \<Rightarrow> nat list" where
  "str_lower db s = concat (map (lower_ucs4 db s) [0..<length s])"

definition str_replace :: "nat list \<Rightarrow> nat \<Rightarrow> nat \<Rightarrow> nat list" where
  "str_replace s old new = map (\<lambda>c. if c = old then new else c) s"

text \<open>
  \<^verbatim>\<open>name.replace(" ", "_").replace("-", "_").lower()\<close>, with the space 32, the hyphen 45
  and the underscore 95.
\<close>

definition str_default_id :: "unicode_db \<Rightarrow> nat list \<Rightarrow> nat list" where
  "str_default_id db n = str_lower db (str_replace (str_replace n 32 95) 45 95)"

text \<open>
  An excerpt of the database, for examples: the lowercase mappings of \<open>A\<close> to \<open>Z\<close>, of
  the Latin-1 capitals, of the Greek capitals and of U+0130; these letters and their
  lowercase forms as the cased code points; the apostrophe, the full stop and the
  combining dot above U+0307 as the case-ignorable ones.
\<close>

definition excerpt_db :: unicode_db where
  "excerpt_db =
     \<lparr>to_lower_full = (\<lambda>c.
        if c = 0x130 then [0x69, 0x307]
        else if (0x41 \<le> c \<and> c \<le> 0x5A) \<or> (0xC0 \<le> c \<and> c \<le> 0xDE \<and> c \<noteq> 0xD7) \<or>
                (0x391 \<le> c \<and> c \<le> 0x3A9 \<and> c \<noteq> 0x3A2)
        then [c + 32] else [c]),
      is_cased = (\<lambda>c.
        (0x41 \<le> c \<and> c \<le> 0x5A) \<or> (0x61 \<le> c \<and> c \<le> 0x7A) \<or>
        (0xC0 \<le> c \<and> c \<le> 0xFF \<and> c \<noteq> 0xD7 \<and> c \<noteq> 0xF7) \<or> c = 0x130 \<or>
        (0x391 \<le> c \<and> c \<le> 0x3C9 \<and> c \<noteq> 0x3A2)),
      is_case_ignorable = (\<lambda>c. c = 0x27 \<or> c = 0x2E \<or> c = 0x307)\<rparr>"

text \<open>
  The records below keep names and identifiers as HOL strings, that is over the code
  points 0 to 255. On these, \<^verbatim>\<open>str.lower\<close> maps \<open>A\<close> to \<open>Z\<close> (65 to 90) and the Latin-1
  capitals (192 to 222, without the multiplication sign 215) to the code point 32 above,
  and leaves every other character alone: \<open>lower\<close>, \<open>replace\<close> and \<open>default_id\<close> are the
  restrictions of the functions above to such strings.
\<close>

definition lower_char :: "char \<Rightarrow> char" where
  "lower_char c =
     (let n = (of_char c :: nat)
      in if (65 \<le> n \<and> n \<le> 90) \<or> (192 \<le> n \<and> n \<le> 222 \<and> n \<noteq> 215)
         then char_of (n + 32) else c)"

definition lower :: "string \<Rightarrow> string" where
  "lower s = map lower_char s"

definition replace :: "string \<Rightarrow> char \<Rightarrow> char \<Rightarrow> string" where
  "replace s old new = map (\<lambda>c. if c = old then new else c) s"

definition truthy :: "'a list option \<Rightarrow> bool" where
  "truthy x = (case x of None \<Rightarrow> False | Some [] \<Rightarrow> False | Some (y # ys) \<Rightarrow> True)"

section \<open>The action models of \<^verbatim>\<open>connector_script.py\<close>\<close>

record RunSqlQueryAction =
  action :: string
  query :: string
  parameters :: "(string \<times> json) list"

definition validate_RunSqlQueryAction :: "(string \<rightharpoonup> json) \<Rightarrow> RunSqlQueryAction result" where
  "validate_RunSqlQueryAction d =
     ap (ap (ap (Inr (\<lambda>a q p. \<lparr>RunSqlQueryAction.action = a, query = q, parameters = p\<rparr>))
       (required d ''action'' (v_literal ''run_sql_query'')))
       (required d ''query'' v_str))
       (with_default d ''parameters'' [] (v_dict v_any))"

record TestConnectionAction =
  action :: string

definition validate_TestConnectionAction ::
  "(string \<rightharpoonup> json) \<Rightarrow> TestConnectionAction result" where
  "validate_TestConnectionAction d =
     ap (Inr (\<lambda>a. \<lparr>TestConnectionAction.action = a\<rparr>))
       (required d ''action'' (v_literal ''test_connection''))"

record BrowsePathAction =
  action :: string
  path :: string

definition validate_BrowsePathAction :: "(string \<rightharpoonup> json) \<Rightarrow> BrowsePathAction result" where
  "validate_BrowsePathAction d =
     ap (ap (Inr (\<lambda>a p. \<lparr>BrowsePathAction.action = a, BrowsePathAction.path = p\<rparr>))
       (required d ''action'' (v_literal ''browse_path'')))
       (with_default d ''path'' ''/'' v_str)"

record ReadContentAction =
  action :: string
  path :: string

definition validate_ReadContentAction :: "(string \<rightharpoonup> json) \<Rightarrow> ReadContentAction result" where
  "validate_ReadContentAction d =
     ap (ap (Inr (\<lambda>a p. \<lparr>ReadContentAction.action = a, ReadContentAction.path = p\<rparr>))
       (required d ''action'' (v_literal ''read_content'')))
       (required d ''path'' v_str)"

text \<open>The field \<^verbatim>\<open>context\<close> of the source is \<open>context'\<close> here.\<close>

record RunDeclarativeAction =
  action :: string
  template_key :: string
  context' :: "(string \<times> json) list"

definition validate_RunDeclarativeAction ::
  "(string \<rightharpoonup> json) \<Rightarrow> RunDeclarativeAction result" where
  "validate_RunDeclarativeAction d =
     ap (ap (ap (Inr (\<lambda>a t c.
         \<lparr>RunDeclarativeAction.action = a, template_key = t, context' = c\<rparr>))
       (required d ''action'' (v_literal ''run_declarative_action'')))
       (required d ''template_key'' v_str))
       (with_default d ''context'' [] (v_dict v_any))"

record AggregateContentAction =
  action :: string
  source_paths :: "string list option"
  source_results :: "string list option"
  target_path :: string
  header_template :: "string option"
  metadata :: "(string \<times> json) list"

definition AggregateContentAction_fields ::
  "(string \<rightharpoonup> json) \<Rightarrow> AggregateContentAction result" where
  "AggregateContentAction_fields d =
     ap (ap (ap (ap (ap (ap (Inr (\<lambda>a sp sr t h m.
         \<lparr>AggregateContentAction.action = a, source_paths = sp, source_results = sr,
          target_path = t, header_template = h, metadata = m\<rparr>))
       (required d ''action'' (v_literal ''aggregate_content'')))
       (with_default d ''source_paths'' None (v_optional (v_list v_str))))
       (with_default d ''source_results'' None (v_optional (v_list v_str))))
       (required d ''target_path'' v_str))
       (with_default d ''header_template'' None (v_optional v_str)))
       (with_default d ''metadata'' [] (v_dict v_any))"

text \<open>
  The model validator of \<^verbatim>\<open>AggregateContentAction\<close>. Python's \<^verbatim>\<open>not x\<close> on an optional
  list is true for \<^verbatim>\<open>None\<close> and for the empty list (\<open>truthy\<close> is its negation).
\<close>

definition check_at_least_one_source :: "AggregateContentAction \<Rightarrow> AggregateContentAction result" where
  "check_at_least_one_source self =
     (if \<not> truthy (source_paths self) \<and> \<not> truthy (source_results self)
      then Inl [([], ValueError
        ''At least one of 'source_paths' or 'source_results' must be provided.'')]
      else Inr self)"

definition validate_AggregateContentAction ::
  "(string \<rightharpoonup> json) \<Rightarrow> AggregateContentAction result" where
  "validate_AggregateContentAction d =
     and_then (AggregateContentAction_fields d) check_at_least_one_source"

record RunPythonScriptAction =
  action :: string
  script_path :: string
  input_data_json :: string

definition validate_RunPythonScriptAction ::
  "(string \<rightharpoonup> json) \<Rightarrow> RunPythonScriptAction result" where
  "validate_RunPythonScriptAction d =
     ap (ap (ap (Inr (\<lambda>a s i. \<lparr>RunPythonScriptAction.action = a,
         RunPythonScriptAction.script_path = s, input_data_json = i\<rparr>))
       (required d ''action'' (v_literal ''run_python_script'')))
       (required d ''script_path'' v_str))
       (with_default d ''input_data_json'' ''{}'' v_str)"

record FileToWrite =
  path :: string
  content :: string

definition validate_FileToWrite :: "(string \<rightharpoonup> json) \<Rightarrow> FileToWrite result" where
  "validate_FileToWrite d =
     ap (ap (Inr (\<lambda>p c. \<lparr>FileToWrite.path = p, content = c\<rparr>))
       (required d ''path'' v_str))
       (required d ''content'' v_str)"

record WriteFilesAction =
  action :: string
  files :: "FileToWrite list"

definition validate_WriteFilesAction :: "(string \<rightharpoonup> json) \<Rightarrow> WriteFilesAction result" where
  "validate_WriteFilesAction d =
     ap (ap (Inr (\<lambda>a f. \<lparr>WriteFilesAction.action = a, files = f\<rparr>))
       (required d ''action'' (v_literal ''write_files'')))
       (required d ''files'' (v_list (v_model validate_FileToWrite)))"

record RunTransformAction =
  action :: string
  script_path :: string
  input_data :: "(string \<times> json) list"

definition validate_RunTransformAction ::
  "(string \<rightharpoonup> json) \<Rightarrow> RunTransformAction result" where
  "validate_RunTransformAction d =
     ap (ap (ap (Inr (\<lambda>a s i. \<lparr>RunTransformAction.action = a,
         RunTransformAction.script_path = s, input_data = i\<rparr>))
       (required d ''action'' (v_literal ''run_transform'')))
       (required d ''script_path'' v_str))
       (with_default d ''input_data'' [] (v_dict v_any))"

subsection \<open>The discriminated union\<close>

text \<open>
  \<^verbatim>\<open>AnyConnectorAction\<close> is the union of the nine action classes, in the order of the
  source. The field \<^verbatim>\<open>run\<close> of a step declares it with \<^verbatim>\<open>discriminator="action"\<close>: pydantic
  reads the key \<^verbatim>\<open>action\<close> of the input and validates the input against the one class
  whose \<^verbatim>\<open>Literal\<close> is that tag, with the tag added to the location of its errors.
\<close>

datatype AnyConnectorAction =
    TestConnection TestConnectionAction
  | BrowsePath BrowsePathAction
  | ReadContent ReadContentAction
  | RunSqlQuery RunSqlQueryAction
  | RunDeclarative RunDeclarativeAction
  | AggregateContent AggregateContentAction
  | RunPythonScript RunPythonScriptAction
  | WriteFiles WriteFilesAction
  | RunTransform RunTransformAction

fun action_tag :: "AnyConnectorAction \<Rightarrow> string" where
  "action_tag (TestConnection a) = TestConnectionAction.action a"
| "action_tag (BrowsePath a) = BrowsePathAction.action a"
| "action_tag (ReadContent a) = ReadContentAction.action a"
| "action_tag (RunSqlQuery a) = RunSqlQueryAction.action a"
| "action_tag (RunDeclarative a) = RunDeclarativeAction.action a"
| "action_tag (AggregateContent a) = AggregateContentAction.action a"
| "action_tag (RunPythonScript a) = RunPythonScriptAction.action a"
| "action_tag (WriteFiles a) = WriteFilesAction.action a"
| "action_tag (RunTransform a) = RunTransformAction.action a"

definition action_tags :: "string list" where
  "action_tags =
     [''test_connection'', ''browse_path'', ''read_content'', ''run_sql_query'',
      ''run_declarative_action'', ''aggregate_content'', ''run_python_script'',
      ''write_files'', ''run_transform'']"

definition variant ::
  "string \<Rightarrow> ('a \<Rightarrow> AnyConnectorAction) \<Rightarrow> 'a result \<Rightarrow> AnyConnectorAction result" where
  "variant tag wrap r = at (Key tag) (map_result wrap r)"

definition validate_AnyConnectorAction :: "json \<Rightarrow> AnyConnectorAction result" where
  "validate_AnyConnectorAction x =
     (case x of
        JDict kvs \<Rightarrow>
          (let d = map_of kvs in
           case d ''action'' of
             None \<Rightarrow> Inl [([], UnionTagNotFound)]
           | Some t \<Rightarrow>
               if t = JStr ''test_connection''
               then variant ''test_connection'' TestConnection (validate_TestConnectionAction d)
               else if t = JStr ''browse_path''
               then variant ''browse_path'' BrowsePath (validate_BrowsePathAction d)
               else if t = JStr ''read_content''
               then variant ''read_content'' ReadContent (validate_ReadContentAction d)
               else if t = JStr ''run_sql_query''
               then variant ''run_sql_query'' RunSqlQuery (validate_RunSqlQueryAction d)
               else if t = JStr ''run_declarative_action''
               then variant ''run_declarative_action'' RunDeclarative
                      (validate_RunDeclarativeAction d)
               else if t = JStr ''aggregate_content''
               then variant ''aggregate_content'' AggregateContent
                      (validate_AggregateContentAction d)
               else if t = JStr ''run_python_script''
               then variant ''run_python_script'' RunPythonScript
                      (validate_RunPythonScriptAction d)
               else if t = JStr ''write_files''
               then variant ''write_files'' WriteFiles (validate_WriteFilesAction d)
               else if t = JStr ''run_transform''
               then variant ''run_transform'' RunTransform (validate_RunTransformAction d)
               else Inl [([], UnionTagInvalid)])
      | _ \<Rightarrow> Inl [([], ModelAttributesType)])"

section \<open>Steps and scripts\<close>

text \<open>
  The attribute \<^verbatim>\<open>id\<close> of a step is \<open>id'\<close> here. It is declared \<^verbatim>\<open>str\<close> without a
  default, and the validator \<^verbatim>\<open>set_default_id\<close> compares it with \<^verbatim>\<open>None\<close>: the record
  keeps \<open>None\<close> representable, so that the validator is modelled with both its branches.
  The field \<^verbatim>\<open>if_condition\<close> is read under its alias \<^verbatim>\<open>if\<close>.
\<close>

record ConnectorStep =
  id' :: "string option"
  name :: string
  description :: "string option"
  connection_source :: string
  run :: AnyConnectorAction
  outputs :: "(string \<times> string) list option"
  depends_on :: "string list option"
  if_condition :: "string option"
  cache_config :: "(string \<times> json) list option"

definition ConnectorStep_fields :: "(string \<rightharpoonup> json) \<Rightarrow> ConnectorStep result" where
  "ConnectorStep_fields d =
     ap (ap (ap (ap (ap (ap (ap (ap (ap (Inr (\<lambda>i n de cs r ou dp ic cc.
         \<lparr>id' = Some i, ConnectorStep.name = n, ConnectorStep.description = de,
          connection_source = cs, run = r, outputs = ou, depends_on = dp,
          if_condition = ic, ConnectorStep.cache_config = cc\<rparr>))
       (required d ''id'' v_str))
       (required d ''name'' v_str))
       (with_default d ''description'' None (v_optional v_str)))
       (required d ''connection_source'' v_str))
       (required d ''run'' validate_AnyConnectorAction))
       (with_default d ''outputs'' None (v_optional (v_dict v_str))))
       (with_default d ''depends_on'' None (v_optional (v_list v_str))))
       (with_default d ''if'' None (v_optional v_str)))
       (with_default d ''cache_config'' None (v_optional (v_dict v_any)))"

text \<open>
  The expression \<^verbatim>\<open>self.name.replace(" ", "_").replace("-", "_").lower()\<close> of
  \<^verbatim>\<open>set_default_id\<close>, as a function of the name.
\<close>

definition default_id :: "string \<Rightarrow> string" where
  "default_id n = lower (replace (replace n CHR '' '' CHR ''_'') CHR ''-'' CHR ''_'')"

definition set_default_id :: "ConnectorStep \<Rightarrow> ConnectorStep" where
  "set_default_id self =
     (case id' self of
        None \<Rightarrow> self\<lparr>id' := Some (default_id (ConnectorStep.name self))\<rparr>
      | Some i \<Rightarrow> self)"

definition validate_ConnectorStep :: "(string \<rightharpoonup> json) \<Rightarrow> ConnectorStep result" where
  "validate_ConnectorStep d = map_result set_default_id (ConnectorStep_fields d)"

text \<open>
  \<open>validate_ConnectorStep\<close> is the constructor call with keyword arguments. pydantic
  also validates a value against the type \<^verbatim>\<open>ConnectorStep\<close> (\<^verbatim>\<open>model_validate\<close>, an item
  of a list of steps): the value is then plain data, validated as above, or an existing
  instance of the class. An instance is taken as it is, its fields are not validated
  again, and the model validators of mode \<^verbatim>\<open>after\<close> still run on it. Assignments to the
  attributes of an instance are not validated either, so the \<^verbatim>\<open>id\<close> of an instance can
  be \<^verbatim>\<open>None\<close>.
\<close>

datatype step_input = Data json | Instance ConnectorStep

definition model_validate_ConnectorStep :: "step_input \<Rightarrow> ConnectorStep result" where
  "model_validate_ConnectorStep x =
     (case x of
        Data j \<Rightarrow> v_model validate_ConnectorStep j
      | Instance self \<Rightarrow> Inr (set_default_id self))"

record ConnectorScript =
  name :: string
  description :: "string option"
  steps :: "ConnectorStep list"
  cache_config :: "(string \<times> json) list option"
  script_input :: "(string \<times> json) list option"

definition validate_ConnectorScript :: "(string \<rightharpoonup> json) \<Rightarrow> ConnectorScript result" where
  "validate_ConnectorScript d =
     ap (ap (ap (ap (ap (Inr (\<lambda>n de st cc si.
         \<lparr>ConnectorScript.name = n, ConnectorScript.description = de, steps = st,
          ConnectorScript.cache_config = cc, script_input = si\<rparr>))
       (required d ''name'' v_str))
       (with_default d ''description'' None (v_optional v_str)))
       (required d ''steps'' (v_list (v_model validate_ConnectorStep))))
       (with_default d ''cache_config'' None (v_optional (v_dict v_any))))
       (with_default d ''script_input'' (Some []) (v_optional (v_dict v_any)))"

text \<open>
  The claim about \<^verbatim>\<open>script_input\<close> speaks of a parameter spec "with a type, a required
  flag, and a default value". The source has no such class; \<open>claimed_parameter_spec\<close>
  follows the words of the claim, in the weakest reading: a mapping that has the three keys.
\<close>

definition claimed_parameter_spec :: "json \<Rightarrow> bool" where
  "claimed_parameter_spec x =
     (case x of
        JDict kvs \<Rightarrow> list_all (\<lambda>k. k \<in> fst ` set kvs) [''type'', ''required'', ''default'']
      | _ \<Rightarrow> False)"

section \<open>Loading \<^verbatim>\<open>notebook.py\<close>\<close>

text \<open>
  A module is run statement by statement; each import, class definition and assignment
  binds names in the module's namespace. \<^verbatim>\<open>from m import a, b\<close> loads \<open>m\<close> and reads the
  names from its namespace in order, raising \<^verbatim>\<open>ImportError\<close> at the first one that \<open>m\<close>
  does not bind (\<open>m\<close> here is a plain module, so there is no submodule to fall back on).
  Of the modules \<^verbatim>\<open>typing\<close> and \<^verbatim>\<open>pydantic\<close>, which are not part of the repository, the
  model holds the names that the repository imports.
\<close>

datatype py_error =
    ImportError string string
  | ModuleNotFoundError string
  | ValidationError "error_detail list"

datatype stmt = ImportFrom string "string list" | ClassDef string | Assign string

fun exec_stmts ::
  "(string \<rightharpoonup> py_error + string list) \<Rightarrow> stmt list \<Rightarrow> string list \<Rightarrow> py_error + string list" where
  "exec_stmts modules [] ns = Inr ns"
| "exec_stmts modules (ImportFrom m names # rest) ns =
     (case modules m of
        None \<Rightarrow> Inl (ModuleNotFoundError m)
      | Some (Inl e) \<Rightarrow> Inl e
      | Some (Inr bound) \<Rightarrow>
          (case find (\<lambda>n. n \<notin> set bound) names of
             Some n \<Rightarrow> Inl (ImportError n m)
           | None \<Rightarrow> exec_stmts modules rest (ns @ names)))"
| "exec_stmts modules (ClassDef c # rest) ns = exec_stmts modules rest (ns @ [c])"
| "exec_stmts modules (Assign v # rest) ns = exec_stmts modules rest (ns @ [v])"

definition external_modules :: "string \<rightharpoonup> py_error + string list" where
  "external_modules =
     [''typing'' \<mapsto> Inr [''Any'', ''Dict'', ''List'', ''Literal'', ''Optional'', ''Union''],
      ''pydantic'' \<mapsto> Inr [''BaseModel'', ''Field'', ''model_validator'']]"

definition connector_script_module :: "stmt list" where
  "connector_script_module =
     [ImportFrom ''typing'' [''Any'', ''Dict'', ''List'', ''Literal'', ''Optional'', ''Union''],
      ImportFrom ''pydantic'' [''BaseModel'', ''Field'', ''model_validator''],
      ClassDef ''RunSqlQueryAction'',
      ClassDef ''TestConnectionAction'',
      ClassDef ''BrowsePathAction'',
      ClassDef ''ReadContentAction'',
      ClassDef ''RunDeclarativeAction'',
      ClassDef ''AggregateContentAction'',
      ClassDef ''RunPythonScriptAction'',
      ClassDef ''FileToWrite'',
      ClassDef ''WriteFilesAction'',
      ClassDef ''RunTransformAction'',
      Assign ''AnyConnectorAction'',
      ClassDef ''ConnectorStep'',
      ClassDef ''ConnectorScript'']"

definition connector_script_namespace :: "py_error + string list" where
  "connector_script_namespace = exec_stmts external_modules connector_script_module []"

definition package_modules :: "string \<rightharpoonup> py_error + string list" where
  "package_modules = external_modules(''.connector_script'' \<mapsto> connector_script_namespace)"

definition notebook_module :: "stmt list" where
  "notebook_module =
     [ImportFrom ''pydantic'' [''BaseModel'', ''Field''],
      ImportFrom ''typing'' [''Dict'', ''List'', ''Optional''],
      ImportFrom ''.connector_script'' [''ScriptInputParameter'', ''ConnectorStep''],
      ClassDef ''ContextualPage'']"

definition notebook_namespace :: "py_error + string list" where
  "notebook_namespace = exec_stmts package_modules notebook_module []"

text \<open>
  \<^verbatim>\<open>ContextualPage\<close>. The class of its \<^verbatim>\<open>inputs\<close>, \<^verbatim>\<open>ScriptInputParameter\<close>, is defined
  nowhere in the source: its validator is the parameter \<open>vparam\<close>.
\<close>

record 'p ContextualPage =
  id' :: "string option"
  name :: string
  description :: "string option"
  inputs :: "(string \<times> 'p) list"
  blocks :: "ConnectorStep list"
  version :: string
  author :: "string option"
  tags :: "string list"

definition validate_ContextualPage ::
  "(json \<Rightarrow> 'p result) \<Rightarrow> (string \<rightharpoonup> json) \<Rightarrow> 'p ContextualPage result" where
  "validate_ContextualPage vparam d =
     ap (ap (ap (ap (ap (ap (ap (ap (Inr (\<lambda>i n de inp b v a t.
         \<lparr>ContextualPage.id' = i, ContextualPage.name = n, ContextualPage.description = de,
          inputs = inp, blocks = b, version = v, author = a, tags = t\<rparr>))
       (with_default d ''id'' None (v_optional v_str)))
       (required d ''name'' v_str))
       (with_default d ''description'' None (v_optional v_str)))
       (with_default d ''inputs'' [] (v_dict vparam)))
       (required d ''blocks'' (v_list (v_model validate_ConnectorStep))))
       (with_default d ''version'' ''1.0.0'' v_str))
       (with_default d ''author'' None (v_optional v_str)))
       (with_default d ''tags'' [] (v_list v_str))"

text \<open>
  Constructing a page from outside needs the module \<^verbatim>\<open>notebook\<close> loaded: the error of
  the load, if any, is what the caller gets.
\<close>

definition construct_ContextualPage ::
  "(json \<Rightarrow> 'p result) \<Rightarrow> (string \<rightharpoonup> json) \<Rightarrow> py_error + 'p ContextualPage" where
  "construct_ContextualPage vparam d =
     (case notebook_namespace of
        Inl e \<Rightarrow> Inl e
      | Inr ns \<Rightarrow>
          (case validate_ContextualPage vparam d of
             Inl es \<Rightarrow> Inl (ValidationError es)
           | Inr p \<Rightarrow> Inr p))"

section \<open>Facts about the validation combinators\<close>

lemma ap_Inr_iff: "ap f x = Inr y \<longleftrightarrow> (\<exists>g a. f = Inr g \<and> x = Inr a \<and> y = g a)"
  by (auto simp: ap_def split: sum.splits)

lemma ap_Inr_Inr: "ap (Inr g) (Inr a) = Inr (g a)"
  by (simp add: ap_def)

lemma isl_ap: "isl (ap f x) \<longleftrightarrow> isl f \<or> isl x"
  by (auto simp: ap_def split: sum.splits)

lemma errors_of_ap: "errors_of (ap f x) = errors_of f @ errors_of x"
  by (auto simp: ap_def errors_of_def split: sum.splits)

lemma errors_of_Inl: "errors_of (Inl es) = es"
  by (simp add: errors_of_def)

lemma errors_of_Inr: "errors_of (Inr v) = []"
  by (simp add: errors_of_def)

lemma Inl_errors_of: "isl r \<Longrightarrow> r = Inl (errors_of r)"
  by (cases r) (simp_all add: errors_of_def)

lemma map_result_Inr_iff: "map_result g r = Inr y \<longleftrightarrow> (\<exists>v. r = Inr v \<and> y = g v)"
  by (auto simp: map_result_def split: sum.splits)

lemma isl_map_result: "isl (map_result g r) \<longleftrightarrow> isl r"
  by (auto simp: map_result_def split: sum.splits)

lemma errors_of_map_result: "errors_of (map_result g r) = errors_of r"
  by (auto simp: map_result_def errors_of_def split: sum.splits)

lemma at_Inr_iff: "at k r = Inr y \<longleftrightarrow> r = Inr y"
  by (auto simp: at_def split: sum.splits)

lemma isl_at: "isl (at k r) \<longleftrightarrow> isl r"
  by (auto simp: at_def split: sum.splits)

lemma required_Inr_iff: "required d k v = Inr y \<longleftrightarrow> (\<exists>x. d k = Some x \<and> v x = Inr y)"
  by (auto simp: required_def at_Inr_iff split: option.splits)

lemma required_None: "d k = None \<Longrightarrow> required d k v = Inl [([Key k], Missing)]"
  by (simp add: required_def)

lemma with_default_None: "d k = None \<Longrightarrow> with_default d k dflt v = Inr dflt"
  by (simp add: with_default_def)

lemma with_default_Some: "d k = Some x \<Longrightarrow> with_default d k dflt v = at (Key k) (v x)"
  by (simp add: with_default_def)

lemma v_str_Inr_iff: "v_str x = Inr s \<longleftrightarrow> x = JStr s"
  by (cases x) simp_all

lemma v_literal_Inr_iff: "v_literal l x = Inr s \<longleftrightarrow> x = JStr l \<and> s = l"
  by (auto simp: v_literal_def)

section \<open>The default identifier\<close>

lemma lower_char_idem: "lower_char (lower_char c) = lower_char c"
  by (auto simp: lower_char_def Let_def)

lemma of_char_lower_char:
  "(of_char (lower_char c) :: nat) =
     (if (65 \<le> (of_char c :: nat) \<and> (of_char c :: nat) \<le> 90) \<or>
         (192 \<le> (of_char c :: nat) \<and> (of_char c :: nat) \<le> 222 \<and> (of_char c :: nat) \<noteq> 215)
      then of_char c + 32 else of_char c)"
  by (auto simp: lower_char_def Let_def)

lemma lower_char_eq_space: "lower_char c = CHR '' '' \<longleftrightarrow> c = CHR '' ''"
proof
  assume "lower_char c = CHR '' ''"
  then have "(of_char (lower_char c) :: nat) = of_char (CHR '' '')" by simp
  then have "(of_char c :: nat) = of_char (CHR '' '')"
    by (simp add: of_char_lower_char split: if_splits)
  then show "c = CHR '' ''" by (simp only: of_char_eq_iff)
next
  assume "c = CHR '' ''"
  then show "lower_char c = CHR '' ''" by (simp add: lower_char_def)
qed

lemma lower_char_eq_hyphen: "lower_char c = CHR ''-'' \<longleftrightarrow> c = CHR ''-''"
proof
  assume "lower_char c = CHR ''-''"
  then have "(of_char (lower_char c) :: nat) = of_char (CHR ''-'')" by simp
  then have "(of_char c :: nat) = of_char (CHR ''-'')"
    by (simp add: of_char_lower_char split: if_splits)
  then show "c = CHR ''-''" by (simp only: of_char_eq_iff)
next
  assume "c = CHR ''-''"
  then show "lower_char c = CHR ''-''" by (simp add: lower_char_def)
qed

lemma default_id_latin1_idempotent: "default_id (default_id n) = default_id n"
  by (simp add: default_id_def lower_def replace_def lower_char_idem lower_char_eq_space
      lower_char_eq_hyphen)

lemma set_default_id_idempotent: "set_default_id (set_default_id self) = set_default_id self"
  by (simp add: set_default_id_def split: option.splits)

lemma concat_map_index:
  "concat (map (\<lambda>i. g (s ! i)) [0..<length s]) = concat (map g s)"
proof -
  have "map (\<lambda>i. g (s ! i)) [0..<length s] = map g (map (\<lambda>i. s ! i) [0..<length s])"
    by simp
  also have "\<dots> = map g s" by (simp only: map_nth)
  finally show ?thesis by simp
qed

lemma str_lower_fixed:
  assumes "\<And>c. c \<in> set x \<Longrightarrow> c \<noteq> 0x3A3 \<and> to_lower_full db c = [c]"
  shows "str_lower db x = x"
proof -
  have "map (lower_ucs4 db x) [0..<length x] = map (\<lambda>i. [x ! i]) [0..<length x]"
    using assms by (auto simp: lower_ucs4_def)
  then have "str_lower db x = concat (map (\<lambda>i. [x ! i]) [0..<length x])"
    by (simp only: str_lower_def)
  also have "\<dots> = concat (map (\<lambda>c. [c]) x)" by (rule concat_map_index)
  also have "\<dots> = x" by (induction x) simp_all
  finally show ?thesis .
qed

lemma set_str_lower:
  assumes "c' \<in> set (str_lower db s)"
  shows "c' = 0x3C2 \<or> c' = 0x3C3 \<or> (\<exists>c \<in> set s. c \<noteq> 0x3A3 \<and> c' \<in> set (to_lower_full db c))"
proof -
  from assms obtain i where i: "i < length s" "c' \<in> set (lower_ucs4 db s i)"
    by (auto simp: str_lower_def)
  show ?thesis
  proof (cases "s ! i = 0x3A3")
    case True
    with i show ?thesis by (auto simp: lower_ucs4_def handle_capital_sigma_def Let_def)
  next
    case False
    with i have "c' \<in> set (to_lower_full db (s ! i))" by (simp add: lower_ucs4_def)
    with False i(1) show ?thesis by (auto intro: nth_mem)
  qed
qed

lemma str_replace_absent: "old \<notin> set s \<Longrightarrow> str_replace s old new = s"
  by (induction s) (auto simp: str_replace_def)

lemma set_replaced:
  "c \<in> set (str_replace (str_replace n 32 95) 45 95) \<Longrightarrow> c \<noteq> 32 \<and> c \<noteq> 45"
  by (auto simp: str_replace_def split: if_splits)

text \<open>
  On strings over the code points 0 to 255, \<open>default_id\<close> is \<open>str_default_id\<close>, for every
  database whose lowercase mapping is the one of Unicode on these code points.
\<close>

lemma default_id_restriction:
  assumes "\<And>c. c < 256 \<Longrightarrow> to_lower_full db c = [of_char (lower_char (char_of c))]"
  shows "str_default_id db (map of_char n) = map of_char (default_id n)"
proof -
  let ?r = "replace (replace n CHR '' '' CHR ''_'') CHR ''-'' CHR ''_''"
  have r: "str_replace (str_replace (map of_char n) 32 95) 45 95 = map of_char ?r"
  proof -
    have "(of_char c :: nat) = 32 \<longleftrightarrow> c = CHR '' ''" for c
      using of_char_eq_iff [of c "CHR '' ''", where ?'a = nat] by simp
    moreover have "(of_char c :: nat) = 45 \<longleftrightarrow> c = CHR ''-''" for c
      using of_char_eq_iff [of c "CHR ''-''", where ?'a = nat] by simp
    ultimately show ?thesis by (simp add: str_replace_def replace_def)
  qed
  have l: "str_lower db (map of_char s) = map of_char (lower s)" for s :: string
  proof -
    have lt: "(of_char c :: nat) < 256" for c :: char
    proof -
      have "(of_char c :: nat) = of_char c mod 256" by simp
      also have "\<dots> < 256" by (rule mod_less_divisor) simp
      finally show ?thesis .
    qed
    have "map (lower_ucs4 db (map of_char s)) [0..<length (map of_char s :: nat list)] =
        map (\<lambda>i. [of_char (lower_char (s ! i))]) [0..<length (map of_char s :: nat list)]"
    proof (rule map_cong [OF refl])
      fix i assume "i \<in> set [0..<length (map of_char s :: nat list)]"
      then have i: "i < length s" by simp
      have ne: "(of_char (s ! i) :: nat) \<noteq> 0x3A3"
      proof
        assume e: "(of_char (s ! i) :: nat) = 0x3A3"
        from lt [of "s ! i"] show False unfolding e by simp
      qed
      from i ne assms [OF lt [of "s ! i"]]
      show "lower_ucs4 db (map of_char s) i = [of_char (lower_char (s ! i))]"
        by (simp add: lower_ucs4_def)
    qed
    then have "str_lower db (map of_char s) =
        concat (map (\<lambda>i. [of_char (lower_char (s ! i))]) [0..<length s])"
      by (simp only: str_lower_def length_map)
    also have "\<dots> = concat (map (\<lambda>c. [of_char (lower_char c)]) s)"
      by (rule concat_map_index)
    also have "\<dots> = map of_char (lower s)" by (induction s) (simp_all add: lower_def)
    finally show ?thesis .
  qed
  show ?thesis by (simp add: str_default_id_def default_id_def r l)
qed

lemma excerpt_fixed:
  "c' \<in> set (to_lower_full excerpt_db c) \<Longrightarrow> to_lower_full excerpt_db c' = [c']"
  by (auto simp: excerpt_db_def split: if_splits)

lemma excerpt_capital: "0x3A3 \<notin> set (to_lower_full excerpt_db c)"
  by (auto simp: excerpt_db_def)

lemma excerpt_separators:
  "c \<noteq> 32 \<Longrightarrow> c \<noteq> 45 \<Longrightarrow>
   32 \<notin> set (to_lower_full excerpt_db c) \<and> 45 \<notin> set (to_lower_full excerpt_db c)"
  by (auto simp: excerpt_db_def)

lemma excerpt_example:
  "str_default_id excerpt_db
     [0x130, 0x73, 0x74, 0x61, 0x6E, 0x62, 0x75, 0x6C, 0x20, 0x3A3, 0x391, 0x3A3] =
   [0x69, 0x307, 0x73, 0x74, 0x61, 0x6E, 0x62, 0x75, 0x6C, 0x5F, 0x3C3, 0x3B1, 0x3C2]"
  by code_simp

text \<open>
  C5. The derivation of the default identifier from the name (spaces and hyphens replaced
  with underscores, then lower-cased) is a function of the name alone and is idempotent:
  applied to its own result it returns that result, for every name, a sequence of code
  points of any length and size. Of the lowercase mapping of the Unicode character
  database the proof needs four facts: the code points that it produces are mapped to
  themselves, and so are the two small sigmas; it produces no capital sigma; and it
  produces a space or a hyphen from no other code point. They hold of every code point of
  the database (Unicode 14.0).
\<close>

theorem default_id_idempotent:
  assumes fixed: "\<And>c c'. c' \<in> set (to_lower_full db c) \<Longrightarrow> to_lower_full db c' = [c']"
    and sigma: "to_lower_full db 0x3C2 = [0x3C2]" "to_lower_full db 0x3C3 = [0x3C3]"
    and capital: "\<And>c. 0x3A3 \<notin> set (to_lower_full db c)"
    and separators: "\<And>c. c \<noteq> 32 \<Longrightarrow> c \<noteq> 45 \<Longrightarrow>
        32 \<notin> set (to_lower_full db c) \<and> 45 \<notin> set (to_lower_full db c)"
  shows "str_default_id db (str_default_id db n) = str_default_id db n"
proof -
  let ?x = "str_default_id db n"
  have el: "c' \<noteq> 0x3A3 \<and> to_lower_full db c' = [c'] \<and> c' \<noteq> 32 \<and> c' \<noteq> 45"
    if "c' \<in> set ?x" for c'
  proof -
    from that have "c' = 0x3C2 \<or> c' = 0x3C3 \<or>
        (\<exists>c \<in> set (str_replace (str_replace n 32 95) 45 95).
           c \<noteq> 0x3A3 \<and> c' \<in> set (to_lower_full db c))"
      unfolding str_default_id_def by (rule set_str_lower)
    then show ?thesis
    proof (elim disjE bexE conjE)
      assume "c' = 0x3C2" with sigma show ?thesis by simp
    next
      assume "c' = 0x3C3" with sigma show ?thesis by simp
    next
      fix c assume c: "c \<in> set (str_replace (str_replace n 32 95) 45 95)"
        and m: "c' \<in> set (to_lower_full db c)"
      from set_replaced [OF c] separators [of c] m have "c' \<noteq> 32 \<and> c' \<noteq> 45" by auto
      moreover from capital [of c] m have "c' \<noteq> 0x3A3" by auto
      moreover from fixed [OF m] have "to_lower_full db c' = [c']" .
      ultimately show ?thesis by simp
    qed
  qed
  have "32 \<notin> set ?x" and "45 \<notin> set ?x" using el by auto
  then have r: "str_replace (str_replace ?x 32 95) 45 95 = ?x"
    by (simp add: str_replace_absent)
  have "str_lower db ?x = ?x" by (rule str_lower_fixed) (use el in auto)
  with r show ?thesis by (simp add: str_default_id_def [of db ?x])
qed

theorem default_id_idempotent_witness:
  "str_default_id excerpt_db
     [0x130, 0x73, 0x74, 0x61, 0x6E, 0x62, 0x75, 0x6C, 0x20, 0x3A3, 0x391, 0x3A3] =
   [0x69, 0x307, 0x73, 0x74, 0x61, 0x6E, 0x62, 0x75, 0x6C, 0x5F, 0x3C3, 0x3B1, 0x3C2] \<and>
   str_default_id excerpt_db
     [0x69, 0x307, 0x73, 0x74, 0x61, 0x6E, 0x62, 0x75, 0x6C, 0x5F, 0x3C3, 0x3B1, 0x3C2] =
   [0x69, 0x307, 0x73, 0x74, 0x61, 0x6E, 0x62, 0x75, 0x6C, 0x5F, 0x3C3, 0x3B1, 0x3C2]"
proof -
  have s: "to_lower_full excerpt_db 0x3C2 = [0x3C2]" "to_lower_full excerpt_db 0x3C3 = [0x3C3]"
    by (simp_all add: excerpt_db_def)
  from default_id_idempotent [of excerpt_db
      "[0x130, 0x73, 0x74, 0x61, 0x6E, 0x62, 0x75, 0x6C, 0x20, 0x3A3, 0x391, 0x3A3]",
      OF excerpt_fixed s excerpt_capital excerpt_separators]
    excerpt_example
  show ?thesis by simp
qed

section \<open>Actions\<close>

text \<open>
  C7. A \<^verbatim>\<open>BrowsePathAction\<close> constructed without a path has the path \<^verbatim>\<open>"/"\<close>: when
  the input has no key \<^verbatim>\<open>path\<close>, construction succeeds exactly when the tag is
  \<^verbatim>\<open>browse_path\<close>, and the instance then has the path \<^verbatim>\<open>"/"\<close>.
\<close>

theorem BrowsePathAction_default_path:
  "d ''path'' = None \<Longrightarrow>
   validate_BrowsePathAction d = Inr a \<longleftrightarrow>
     d ''action'' = Some (JStr ''browse_path'') \<and>
     a = \<lparr>BrowsePathAction.action = ''browse_path'', BrowsePathAction.path = ''/''\<rparr>"
  by (auto simp: validate_BrowsePathAction_def ap_Inr_iff required_Inr_iff with_default_None v_literal_Inr_iff)

theorem BrowsePathAction_default_path_witness:
  "[''action'' \<mapsto> JStr ''browse_path''] ''path'' = None \<and>
   validate_BrowsePathAction [''action'' \<mapsto> JStr ''browse_path''] =
     Inr \<lparr>BrowsePathAction.action = ''browse_path'', BrowsePathAction.path = ''/''\<rparr>"
  using BrowsePathAction_default_path [of "[''action'' \<mapsto> JStr ''browse_path'']"
    "\<lparr>BrowsePathAction.action = ''browse_path'', BrowsePathAction.path = ''/''\<rparr>"]
  by simp

subsection \<open>The source check of \<^verbatim>\<open>AggregateContentAction\<close>\<close>

lemma required_upd_other: "k \<noteq> k' \<Longrightarrow> required (d(k' := x)) k v = required d k v"
  by (simp add: required_def)

lemma with_default_upd_other:
  "k \<noteq> k' \<Longrightarrow> with_default (d(k' := x)) k dflt v = with_default d k dflt v"
  by (simp add: with_default_def)

lemma v_items_Inr_iff: "v_items v i xs = Inr ys \<longleftrightarrow> list_all2 (\<lambda>x y. v x = Inr y) xs ys"
proof (induction xs arbitrary: i ys)
  case Nil
  then show ?case by auto
next
  case (Cons x xs)
  then show ?case
    by (auto simp: ap_Inr_iff at_Inr_iff list_all2_Cons1)
qed

lemma v_values_any: "v_values v_any kvs = Inr kvs"
  by (induction kvs) (auto simp: v_any_def at_def ap_def)

lemma v_dict_any_Inr_iff: "v_dict v_any x = Inr kvs \<longleftrightarrow> x = JDict kvs"
  by (cases x) (auto simp: v_dict_def v_values_any)

lemma optional_list_truthy:
  assumes "with_default d k None (v_optional (v_list v)) = Inr x"
  shows "truthy x \<longleftrightarrow> \<not> (d k = None \<or> d k = Some JNull \<or> d k = Some (JList []))"
proof (cases "d k")
  case None
  with assms show ?thesis by (simp add: with_default_def truthy_def)
next
  case (Some j)
  with assms have r: "v_optional (v_list v) j = Inr x"
    by (simp add: with_default_def at_Inr_iff)
  show ?thesis
  proof (cases j)
    case (JList xs)
    with r obtain ys where ys: "x = Some ys" "v_items v 0 xs = Inr ys"
      by (auto simp: v_optional_def v_list_def map_result_Inr_iff)
    then have "list_all2 (\<lambda>x y. v x = Inr y) xs ys" by (simp add: v_items_Inr_iff)
    then have "length xs = length ys" by (rule list_all2_lengthD)
    then have "ys = [] \<longleftrightarrow> xs = []" by auto
    with Some JList ys show ?thesis by (cases ys) (auto simp: truthy_def)
  qed (use r Some in \<open>auto simp: v_optional_def v_list_def map_result_Inr_iff truthy_def\<close>)
qed

lemma AggregateContentAction_fields_sources:
  assumes "AggregateContentAction_fields d = Inr a"
  shows "with_default d ''source_paths'' None (v_optional (v_list v_str)) = Inr (source_paths a)"
    and "with_default d ''source_results'' None (v_optional (v_list v_str)) = Inr (source_results a)"
  using assms by (auto simp: AggregateContentAction_fields_def ap_Inr_iff)

lemma validate_after_fields:
  assumes f: "AggregateContentAction_fields d = Inr a"
  shows "validate_AggregateContentAction d =
        (if (d ''source_paths'' = None \<or> d ''source_paths'' = Some JNull \<or>
             d ''source_paths'' = Some (JList [])) \<and>
            (d ''source_results'' = None \<or> d ''source_results'' = Some JNull \<or>
             d ''source_results'' = Some (JList []))
         then Inl [([], ValueError
           ''At least one of 'source_paths' or 'source_results' must be provided.'')]
         else Inr a)"
proof -
  note t = optional_list_truthy [OF AggregateContentAction_fields_sources(1) [OF f]]
    optional_list_truthy [OF AggregateContentAction_fields_sources(2) [OF f]]
  show ?thesis
    unfolding validate_AggregateContentAction_def f and_then_def check_at_least_one_source_def
    using t by auto
qed

lemma isl_validate_Aggregate:
  "isl (AggregateContentAction_fields d) \<Longrightarrow> isl (validate_AggregateContentAction d)"
  by (cases "AggregateContentAction_fields d")
     (simp_all add: validate_AggregateContentAction_def and_then_def)

text \<open>
  C2 (as amended). Constructing an \<^verbatim>\<open>AggregateContentAction\<close> fails if both
  \<^verbatim>\<open>source_paths\<close> and \<^verbatim>\<open>source_results\<close> are absent. When the fields are otherwise
  valid, it fails with the validator's \<^verbatim>\<open>ValueError\<close> exactly when each of the two is
  absent, \<^verbatim>\<open>None\<close> or an empty list, and it is constructed whenever at least one of them
  is a non-empty list. The claim as stated ("whenever at least one of them is provided")
  fails for a source that is provided as an empty list: see the counterexample below.
\<close>

theorem AggregateContentAction_source_check:
  "(d ''source_paths'' = None \<and> d ''source_results'' = None \<longrightarrow>
      isl (validate_AggregateContentAction d)) \<and>
   (AggregateContentAction_fields d = Inr a \<longrightarrow>
      validate_AggregateContentAction d =
        (if (d ''source_paths'' = None \<or> d ''source_paths'' = Some JNull \<or>
             d ''source_paths'' = Some (JList [])) \<and>
            (d ''source_results'' = None \<or> d ''source_results'' = Some JNull \<or>
             d ''source_results'' = Some (JList []))
         then Inl [([], ValueError
           ''At least one of 'source_paths' or 'source_results' must be provided.'')]
         else Inr a))"
proof (intro conjI impI)
  assume "AggregateContentAction_fields d = Inr a"
  then show "validate_AggregateContentAction d =
        (if (d ''source_paths'' = None \<or> d ''source_paths'' = Some JNull \<or>
             d ''source_paths'' = Some (JList [])) \<and>
            (d ''source_results'' = None \<or> d ''source_results'' = Some JNull \<or>
             d ''source_results'' = Some (JList []))
         then Inl [([], ValueError
           ''At least one of 'source_paths' or 'source_results' must be provided.'')]
         else Inr a)"
    by (rule validate_after_fields)
next
  assume n: "d ''source_paths'' = None \<and> d ''source_results'' = None"
  show "isl (validate_AggregateContentAction d)"
  proof (cases "AggregateContentAction_fields d")
    case (Inl es)
    then show ?thesis by (simp add: isl_validate_Aggregate)
  next
    case (Inr a)
    from validate_after_fields [OF Inr] n show ?thesis by simp
  qed
qed

theorem AggregateContentAction_source_check_witness:
  "[''action'' \<mapsto> JStr ''aggregate_content'', ''target_path'' \<mapsto> JStr ''out.md'']
      ''source_paths'' = None \<and>
   [''action'' \<mapsto> JStr ''aggregate_content'', ''target_path'' \<mapsto> JStr ''out.md'']
      ''source_results'' = None \<and>
   AggregateContentAction_fields
     [''action'' \<mapsto> JStr ''aggregate_content'', ''target_path'' \<mapsto> JStr ''out.md''] =
     Inr \<lparr>AggregateContentAction.action = ''aggregate_content'', source_paths = None,
          source_results = None, target_path = ''out.md'', header_template = None,
          metadata = []\<rparr> \<and>
   isl (validate_AggregateContentAction
     [''action'' \<mapsto> JStr ''aggregate_content'', ''target_path'' \<mapsto> JStr ''out.md'']) \<and>
   validate_AggregateContentAction
     [''action'' \<mapsto> JStr ''aggregate_content'', ''target_path'' \<mapsto> JStr ''out.md''] =
     Inl [([], ValueError
       ''At least one of 'source_paths' or 'source_results' must be provided.'')]"
proof -
  let ?d = "[''action'' \<mapsto> JStr ''aggregate_content'', ''target_path'' \<mapsto> JStr ''out.md'']"
  let ?a = "\<lparr>AggregateContentAction.action = ''aggregate_content'', source_paths = None,
          source_results = None, target_path = ''out.md'', header_template = None,
          metadata = []\<rparr>"
  have n: "?d ''source_paths'' = None \<and> ?d ''source_results'' = None" by simp
  have f: "AggregateContentAction_fields ?d = Inr ?a"
    by (simp add: AggregateContentAction_fields_def required_def with_default_def at_def
        v_literal_def ap_def)
  from AggregateContentAction_source_check [of ?d ?a] n f show ?thesis by simp
qed

text \<open>
  The counterexample to C2 as stated: \<^verbatim>\<open>source_paths=[]\<close> is provided, and the source
  check still raises.
\<close>

theorem AggregateContentAction_provided_empty_counterexample:
  "validate_AggregateContentAction
     [''action'' \<mapsto> JStr ''aggregate_content'', ''source_paths'' \<mapsto> JList [],
      ''target_path'' \<mapsto> JStr ''out.md''] =
   Inl [([], ValueError
     ''At least one of 'source_paths' or 'source_results' must be provided.'')]"
  by (simp add: validate_AggregateContentAction_def AggregateContentAction_fields_def
      required_def with_default_def at_def v_literal_def ap_def v_optional_def v_list_def
      map_result_def and_then_def check_at_least_one_source_def truthy_def)

text \<open>
  C9. The source check tests falsiness, not absence: with \<^verbatim>\<open>source_paths=[]\<close> and
  \<^verbatim>\<open>source_results=[]\<close> construction fails, with the same result as when both are
  omitted from the same arguments; when the other fields are valid, that result is the
  validator's \<^verbatim>\<open>ValueError\<close>.
\<close>

theorem AggregateContentAction_empty_sources:
  assumes "d ''source_paths'' = Some (JList [])" and "d ''source_results'' = Some (JList [])"
  shows "isl (validate_AggregateContentAction d) \<and>
    validate_AggregateContentAction d =
      validate_AggregateContentAction (d(''source_paths'' := None, ''source_results'' := None)) \<and>
    (AggregateContentAction_fields d = Inr a \<longrightarrow>
      validate_AggregateContentAction d = Inl [([], ValueError
        ''At least one of 'source_paths' or 'source_results' must be provided.'')])"
proof -
  let ?d0 = "d(''source_paths'' := None, ''source_results'' := None)"
  have sp: "with_default d ''source_paths'' None (v_optional (v_list v_str)) = Inr (Some [])"
    and sr: "with_default d ''source_results'' None (v_optional (v_list v_str)) = Inr (Some [])"
    using assms by (simp_all add: with_default_def v_optional_def v_list_def at_def map_result_def)
  have sp0: "with_default ?d0 ''source_paths'' None (v_optional (v_list v_str)) = Inr None"
    and sr0: "with_default ?d0 ''source_results'' None (v_optional (v_list v_str)) = Inr None"
    by (simp_all add: with_default_def)
  define A where "A = required d ''action'' (v_literal ''aggregate_content'')"
  define T where "T = required d ''target_path'' v_str"
  define H where "H = with_default d ''header_template'' None (v_optional v_str)"
  define M where "M = with_default d ''metadata'' [] (v_dict v_any)"
  have A0: "required ?d0 ''action'' (v_literal ''aggregate_content'') = A"
    and T0: "required ?d0 ''target_path'' v_str = T"
    and H0: "with_default ?d0 ''header_template'' None (v_optional v_str) = H"
    and M0: "with_default ?d0 ''metadata'' [] (v_dict v_any) = M"
    by (simp_all add: A_def T_def H_def M_def required_def with_default_def)
  have eq: "validate_AggregateContentAction d = validate_AggregateContentAction ?d0"
    and l: "isl (validate_AggregateContentAction d)"
    unfolding validate_AggregateContentAction_def AggregateContentAction_fields_def
      sp sr sp0 sr0 A0 T0 H0 M0 A_def [symmetric] T_def [symmetric] H_def [symmetric]
      M_def [symmetric]
    by (cases A; cases T; cases H; cases M;
        simp add: ap_def and_then_def check_at_least_one_source_def truthy_def)+
  have v: "validate_AggregateContentAction d = Inl [([], ValueError
        ''At least one of 'source_paths' or 'source_results' must be provided.'')]"
    if "AggregateContentAction_fields d = Inr a"
    using validate_after_fields [OF that] assms by simp
  from eq l v show ?thesis by blast
qed

theorem AggregateContentAction_empty_sources_witness:
  "validate_AggregateContentAction
     [''action'' \<mapsto> JStr ''aggregate_content'', ''source_paths'' \<mapsto> JList [],
      ''source_results'' \<mapsto> JList [], ''target_path'' \<mapsto> JStr ''out.md''] =
   Inl [([], ValueError
     ''At least one of 'source_paths' or 'source_results' must be provided.'')] \<and>
   validate_AggregateContentAction
     [''action'' \<mapsto> JStr ''aggregate_content'', ''target_path'' \<mapsto> JStr ''out.md''] =
   Inl [([], ValueError
     ''At least one of 'source_paths' or 'source_results' must be provided.'')]"
proof -
  let ?d = "[''action'' \<mapsto> JStr ''aggregate_content'', ''source_paths'' \<mapsto> JList [],
      ''source_results'' \<mapsto> JList [], ''target_path'' \<mapsto> JStr ''out.md'']"
  let ?a = "\<lparr>AggregateContentAction.action = ''aggregate_content'', source_paths = Some [],
          source_results = Some [], target_path = ''out.md'', header_template = None,
          metadata = []\<rparr>"
  have p: "?d ''source_paths'' = Some (JList [])" and r: "?d ''source_results'' = Some (JList [])"
    by simp_all
  have f: "AggregateContentAction_fields ?d = Inr ?a"
    by (simp add: AggregateContentAction_fields_def required_def with_default_def at_def
        v_literal_def ap_def v_optional_def v_list_def map_result_def)
  have e: "?d(''source_paths'' := None, ''source_results'' := None) =
      [''action'' \<mapsto> JStr ''aggregate_content'', ''target_path'' \<mapsto> JStr ''out.md'']"
    by (rule ext) simp
  note t = AggregateContentAction_empty_sources [OF p r, of ?a]
  from t f have 1: "validate_AggregateContentAction ?d = Inl [([], ValueError
     ''At least one of 'source_paths' or 'source_results' must be provided.'')]"
    by blast
  from t have 2: "validate_AggregateContentAction ?d =
      validate_AggregateContentAction (?d(''source_paths'' := None, ''source_results'' := None))"
    by blast
  from 2 [unfolded e, symmetric] 1 have 3: "validate_AggregateContentAction
     [''action'' \<mapsto> JStr ''aggregate_content'', ''target_path'' \<mapsto> JStr ''out.md''] =
     Inl [([], ValueError
     ''At least one of 'source_paths' or 'source_results' must be provided.'')]"
    by (rule trans)
  from 1 3 show ?thesis by (rule conjI)
qed

section \<open>Steps\<close>

lemma isl_of_errors: "errors_of r \<noteq> [] \<Longrightarrow> isl r"
  by (cases r) (simp_all add: errors_of_def)

lemma and_then_Inr_iff: "and_then r g = Inr y \<longleftrightarrow> (\<exists>v. r = Inr v \<and> g v = Inr y)"
  by (auto simp: and_then_def split: sum.splits)

lemma variant_Inr_iff: "variant tag wrap r = Inr u \<longleftrightarrow> (\<exists>a. r = Inr a \<and> u = wrap a)"
  by (auto simp: variant_def at_Inr_iff map_result_Inr_iff)

lemma ConnectorStep_fields_id:
  "ConnectorStep_fields d = Inr s \<Longrightarrow>
   \<exists>i. d ''id'' = Some (JStr i) \<and> ConnectorStep.id' s = Some i"
  by (auto simp: ConnectorStep_fields_def ap_Inr_iff required_Inr_iff v_str_Inr_iff)

lemma ConnectorStep_fields_run:
  "ConnectorStep_fields d = Inr s \<Longrightarrow>
   \<exists>x. d ''run'' = Some x \<and> validate_AnyConnectorAction x = Inr (run s)"
  by (auto simp: ConnectorStep_fields_def ap_Inr_iff required_Inr_iff)

lemma validate_ConnectorStep_eq_fields: "validate_ConnectorStep d = ConnectorStep_fields d"
proof (cases "ConnectorStep_fields d")
  case (Inl es)
  then show ?thesis by (simp add: validate_ConnectorStep_def map_result_def)
next
  case (Inr s)
  from ConnectorStep_fields_id [OF Inr] have "set_default_id s = s"
    by (auto simp: set_default_id_def)
  with Inr show ?thesis by (simp add: validate_ConnectorStep_def map_result_def)
qed

lemma errors_of_fields_id:
  "errors_of (ConnectorStep_fields d) =
     errors_of (required d ''id'' v_str) @
     errors_of (ap (ap (ap (ap (ap (ap (ap (ap (Inr (\<lambda>n de cs r ou dp ic cc. ()))
       (required d ''name'' v_str))
       (with_default d ''description'' None (v_optional v_str)))
       (required d ''connection_source'' v_str))
       (required d ''run'' validate_AnyConnectorAction))
       (with_default d ''outputs'' None (v_optional (v_dict v_str))))
       (with_default d ''depends_on'' None (v_optional (v_list v_str))))
       (with_default d ''if'' None (v_optional v_str)))
       (with_default d ''cache_config'' None (v_optional (v_dict v_any))))"
  by (simp add: ConnectorStep_fields_def errors_of_ap errors_of_Inr)

lemma id_missing_error:
  "d ''id'' = None \<Longrightarrow> ([Key ''id''], Missing) \<in> set (errors_of (validate_ConnectorStep d))"
  by (simp add: validate_ConnectorStep_eq_fields errors_of_fields_id required_None errors_of_Inl)

lemma id_null_error:
  "d ''id'' = Some JNull \<Longrightarrow>
   ([Key ''id''], StringType) \<in> set (errors_of (validate_ConnectorStep d))"
  by (simp add: validate_ConnectorStep_eq_fields errors_of_fields_id required_def at_def
      errors_of_Inl)

lemma run_error:
  "d ''run'' = Some x \<Longrightarrow> validate_AnyConnectorAction x = Inl [([], e)] \<Longrightarrow>
   ([Key ''run''], e) \<in> set (errors_of (validate_ConnectorStep d))"
  by (simp add: validate_ConnectorStep_eq_fields ConnectorStep_fields_def errors_of_ap
      errors_of_Inr required_def at_def errors_of_Inl)

text \<open>
  C1 (as amended). A \<^verbatim>\<open>ConnectorStep\<close> cannot be constructed without an \<^verbatim>\<open>id\<close>:
  validation fails and reports the field \<^verbatim>\<open>id\<close> missing. The derivation from the name
  (spaces and hyphens replaced with underscores, lower-cased) is what \<^verbatim>\<open>set_default_id\<close>
  assigns to an instance whose \<^verbatim>\<open>id\<close> is \<^verbatim>\<open>None\<close>, and only to such an instance. The claim
  as stated (the step is constructed with the derived id) fails: see the counterexample
  below.
\<close>

theorem ConnectorStep_without_id:
  "d ''id'' = None \<Longrightarrow>
   (\<exists>es. validate_ConnectorStep d = Inl es \<and> ([Key ''id''], Missing) \<in> set es) \<and>
   set_default_id (self\<lparr>ConnectorStep.id' := None\<rparr>) =
     self\<lparr>ConnectorStep.id' := Some (lower (replace (replace (ConnectorStep.name self)
       CHR '' '' CHR ''_'') CHR ''-'' CHR ''_''))\<rparr>"
proof -
  assume n: "d ''id'' = None"
  from n have m: "([Key ''id''], Missing) \<in> set (errors_of (validate_ConnectorStep d))"
    by (rule id_missing_error)
  then have "errors_of (validate_ConnectorStep d) \<noteq> []" by auto
  then have "isl (validate_ConnectorStep d)" by (rule isl_of_errors)
  then have "validate_ConnectorStep d = Inl (errors_of (validate_ConnectorStep d))"
    by (rule Inl_errors_of)
  with m have "\<exists>es. validate_ConnectorStep d = Inl es \<and> ([Key ''id''], Missing) \<in> set es"
    by blast
  then show ?thesis by (simp add: set_default_id_def default_id_def)
qed

theorem ConnectorStep_without_id_witness:
  "[''name'' \<mapsto> JStr ''My Step-One'', ''connection_source'' \<mapsto> JStr ''user:my_db'',
    ''run'' \<mapsto> JDict [(''action'', JStr ''test_connection'')]] ''id'' = None \<and>
   (\<exists>es. validate_ConnectorStep
      [''name'' \<mapsto> JStr ''My Step-One'', ''connection_source'' \<mapsto> JStr ''user:my_db'',
       ''run'' \<mapsto> JDict [(''action'', JStr ''test_connection'')]] = Inl es \<and>
      ([Key ''id''], Missing) \<in> set es) \<and>
   ConnectorStep.id' (set_default_id
     \<lparr>ConnectorStep.id' = None, ConnectorStep.name = ''My Step-One'',
      ConnectorStep.description = None, connection_source = ''user:my_db'',
      run = TestConnection \<lparr>TestConnectionAction.action = ''test_connection''\<rparr>,
      outputs = None, depends_on = None, if_condition = None,
      ConnectorStep.cache_config = None\<rparr>) = Some ''my_step_one''"
proof -
  let ?d = "[''name'' \<mapsto> JStr ''My Step-One'', ''connection_source'' \<mapsto> JStr ''user:my_db'',
    ''run'' \<mapsto> JDict [(''action'', JStr ''test_connection'')]]"
  let ?self = "\<lparr>ConnectorStep.id' = None, ConnectorStep.name = ''My Step-One'',
      ConnectorStep.description = None, connection_source = ''user:my_db'',
      run = TestConnection \<lparr>TestConnectionAction.action = ''test_connection''\<rparr>,
      outputs = None, depends_on = None, if_condition = None,
      ConnectorStep.cache_config = None\<rparr>"
  have n: "?d ''id'' = None" by simp
  have l: "lower (replace (replace ''My Step-One'' CHR '' '' CHR ''_'') CHR ''-'' CHR ''_'') =
      ''my_step_one''"
    by code_simp
  from ConnectorStep_without_id [of ?d ?self, OF n] n l show ?thesis by simp
qed

text \<open>
  The counterexample to C1 as stated: a step named \<^verbatim>\<open>My Step-One\<close> and given no \<^verbatim>\<open>id\<close>
  is not constructed with the id \<^verbatim>\<open>my_step_one\<close>; it is rejected.
\<close>

theorem ConnectorStep_without_id_counterexample:
  "validate_ConnectorStep
     [''name'' \<mapsto> JStr ''My Step-One'', ''connection_source'' \<mapsto> JStr ''user:my_db'',
      ''run'' \<mapsto> JDict [(''action'', JStr ''test_connection'')]] =
   Inl [([Key ''id''], Missing)]"
  by (simp add: validate_ConnectorStep_def ConnectorStep_fields_def required_def
      with_default_def at_def ap_def map_result_def validate_AnyConnectorAction_def variant_def
      validate_TestConnectionAction_def v_literal_def)

text \<open>
  C8 (as amended). Constructing a \<^verbatim>\<open>ConnectorStep\<close> without an \<^verbatim>\<open>id\<close> (or with
  \<^verbatim>\<open>id=None\<close>) always fails validation, and a step validated from field values never
  takes the branch of \<^verbatim>\<open>set_default_id\<close> guarded by \<^verbatim>\<open>self.id is None\<close>: the instance
  handed to the validator has the \<^verbatim>\<open>id\<close> given in the input and is returned unchanged.
  The branch is taken when, and only when, an existing instance whose \<^verbatim>\<open>id\<close> is \<^verbatim>\<open>None\<close>
  is validated: it is accepted and gets the identifier derived from its name. The claim
  as stated (the branch is unreachable for every successfully validated step) fails: see
  the counterexample below.
\<close>

theorem id_None_branch_reachability:
  "(d ''id'' = None \<or> d ''id'' = Some JNull \<longrightarrow> isl (validate_ConnectorStep d)) \<and>
   (ConnectorStep_fields d' = Inr s \<longrightarrow>
      ConnectorStep.id' s \<noteq> None \<and> set_default_id s = s \<and> validate_ConnectorStep d' = Inr s) \<and>
   (model_validate_ConnectorStep (Data j) = Inr s' \<longrightarrow>
      (\<exists>kvs i. j = JDict kvs \<and> map_of kvs ''id'' = Some (JStr i) \<and>
         ConnectorStep_fields (map_of kvs) = Inr s' \<and> ConnectorStep.id' s' = Some i)) \<and>
   (ConnectorStep.id' self \<noteq> None \<longrightarrow>
      model_validate_ConnectorStep (Instance self) = Inr self) \<and>
   (ConnectorStep.id' self' = None \<longrightarrow>
      model_validate_ConnectorStep (Instance self') =
        Inr (self'\<lparr>ConnectorStep.id' :=
          Some (lower (replace (replace (ConnectorStep.name self')
            CHR '' '' CHR ''_'') CHR ''-'' CHR ''_''))\<rparr>))"
proof (intro conjI impI)
  assume "d ''id'' = None \<or> d ''id'' = Some JNull"
  then have "errors_of (validate_ConnectorStep d) \<noteq> []"
    using id_missing_error [of d] id_null_error [of d] by auto
  then show "isl (validate_ConnectorStep d)" by (rule isl_of_errors)
next
  assume f: "ConnectorStep_fields d' = Inr s"
  from ConnectorStep_fields_id [OF f] show "ConnectorStep.id' s \<noteq> None" by auto
  from ConnectorStep_fields_id [OF f] show "set_default_id s = s"
    by (auto simp: set_default_id_def)
  from f show "validate_ConnectorStep d' = Inr s" by (simp add: validate_ConnectorStep_eq_fields)
next
  assume v: "model_validate_ConnectorStep (Data j) = Inr s'"
  then have m: "v_model validate_ConnectorStep j = Inr s'"
    by (simp add: model_validate_ConnectorStep_def)
  then obtain kvs where kvs: "j = JDict kvs" "ConnectorStep_fields (map_of kvs) = Inr s'"
    by (cases j) (simp_all add: v_model_def validate_ConnectorStep_eq_fields)
  from ConnectorStep_fields_id [OF kvs(2)] kvs
  show "\<exists>kvs i. j = JDict kvs \<and> map_of kvs ''id'' = Some (JStr i) \<and>
         ConnectorStep_fields (map_of kvs) = Inr s' \<and> ConnectorStep.id' s' = Some i"
    by blast
next
  assume "ConnectorStep.id' self \<noteq> None"
  then show "model_validate_ConnectorStep (Instance self) = Inr self"
    by (auto simp: model_validate_ConnectorStep_def set_default_id_def)
next
  assume "ConnectorStep.id' self' = None"
  then show "model_validate_ConnectorStep (Instance self') =
        Inr (self'\<lparr>ConnectorStep.id' :=
          Some (lower (replace (replace (ConnectorStep.name self')
            CHR '' '' CHR ''_'') CHR ''-'' CHR ''_''))\<rparr>)"
    by (simp add: model_validate_ConnectorStep_def set_default_id_def default_id_def)
qed

theorem id_None_branch_reachability_witness:
  "isl (validate_ConnectorStep
    [''name'' \<mapsto> JStr ''Fetch'', ''connection_source'' \<mapsto> JStr ''user:my_db'',
     ''run'' \<mapsto> JDict [(''action'', JStr ''test_connection'')]]) \<and>
   validate_ConnectorStep
    [''id'' \<mapsto> JStr ''fetch'', ''name'' \<mapsto> JStr ''Fetch'',
     ''connection_source'' \<mapsto> JStr ''user:my_db'',
     ''run'' \<mapsto> JDict [(''action'', JStr ''test_connection'')]] = Inr \<lparr>ConnectorStep.id' = Some ''fetch'', ConnectorStep.name = ''Fetch'',
      ConnectorStep.description = None, connection_source = ''user:my_db'',
      run = TestConnection \<lparr>TestConnectionAction.action = ''test_connection''\<rparr>,
      outputs = None, depends_on = None, if_condition = None,
      ConnectorStep.cache_config = None\<rparr> \<and>
   model_validate_ConnectorStep (Data (JDict
    [(''id'', JStr ''fetch''), (''name'', JStr ''Fetch''),
     (''connection_source'', JStr ''user:my_db''),
     (''run'', JDict [(''action'', JStr ''test_connection'')])])) = Inr \<lparr>ConnectorStep.id' = Some ''fetch'', ConnectorStep.name = ''Fetch'',
      ConnectorStep.description = None, connection_source = ''user:my_db'',
      run = TestConnection \<lparr>TestConnectionAction.action = ''test_connection''\<rparr>,
      outputs = None, depends_on = None, if_condition = None,
      ConnectorStep.cache_config = None\<rparr> \<and>
   model_validate_ConnectorStep (Instance \<lparr>ConnectorStep.id' = Some ''fetch'', ConnectorStep.name = ''Fetch'',
      ConnectorStep.description = None, connection_source = ''user:my_db'',
      run = TestConnection \<lparr>TestConnectionAction.action = ''test_connection''\<rparr>,
      outputs = None, depends_on = None, if_condition = None,
      ConnectorStep.cache_config = None\<rparr>) = Inr \<lparr>ConnectorStep.id' = Some ''fetch'', ConnectorStep.name = ''Fetch'',
      ConnectorStep.description = None, connection_source = ''user:my_db'',
      run = TestConnection \<lparr>TestConnectionAction.action = ''test_connection''\<rparr>,
      outputs = None, depends_on = None, if_condition = None,
      ConnectorStep.cache_config = None\<rparr> \<and>
   model_validate_ConnectorStep (Instance (\<lparr>ConnectorStep.id' = Some ''fetch'', ConnectorStep.name = ''Fetch'',
      ConnectorStep.description = None, connection_source = ''user:my_db'',
      run = TestConnection \<lparr>TestConnectionAction.action = ''test_connection''\<rparr>,
      outputs = None, depends_on = None, if_condition = None,
      ConnectorStep.cache_config = None\<rparr>\<lparr>ConnectorStep.id' := None\<rparr>)) = Inr \<lparr>ConnectorStep.id' = Some ''fetch'', ConnectorStep.name = ''Fetch'',
      ConnectorStep.description = None, connection_source = ''user:my_db'',
      run = TestConnection \<lparr>TestConnectionAction.action = ''test_connection''\<rparr>,
      outputs = None, depends_on = None, if_condition = None,
      ConnectorStep.cache_config = None\<rparr>"
proof -
  let ?d = "[''name'' \<mapsto> JStr ''Fetch'', ''connection_source'' \<mapsto> JStr ''user:my_db'',
     ''run'' \<mapsto> JDict [(''action'', JStr ''test_connection'')]]"
  let ?d' = "[''id'' \<mapsto> JStr ''fetch'', ''name'' \<mapsto> JStr ''Fetch'',
     ''connection_source'' \<mapsto> JStr ''user:my_db'',
     ''run'' \<mapsto> JDict [(''action'', JStr ''test_connection'')]]"
  let ?j = "JDict [(''id'', JStr ''fetch''), (''name'', JStr ''Fetch''),
     (''connection_source'', JStr ''user:my_db''),
     (''run'', JDict [(''action'', JStr ''test_connection'')])]"
  let ?s = "\<lparr>ConnectorStep.id' = Some ''fetch'', ConnectorStep.name = ''Fetch'',
      ConnectorStep.description = None, connection_source = ''user:my_db'',
      run = TestConnection \<lparr>TestConnectionAction.action = ''test_connection''\<rparr>,
      outputs = None, depends_on = None, if_condition = None,
      ConnectorStep.cache_config = None\<rparr>"
  let ?n = "?s\<lparr>ConnectorStep.id' := None\<rparr>"
  have n: "?d ''id'' = None \<or> ?d ''id'' = Some JNull" by simp
  have f: "ConnectorStep_fields ?d' = Inr ?s"
    by (simp add: ConnectorStep_fields_def required_def with_default_def at_def ap_def
        map_result_def validate_AnyConnectorAction_def variant_def
        validate_TestConnectionAction_def v_literal_def)
  have m: "model_validate_ConnectorStep (Data ?j) = Inr ?s"
    by (simp add: model_validate_ConnectorStep_def v_model_def validate_ConnectorStep_def
        set_default_id_def
        ConnectorStep_fields_def required_def with_default_def at_def ap_def
        map_result_def validate_AnyConnectorAction_def variant_def
        validate_TestConnectionAction_def v_literal_def)
  have i: "ConnectorStep.id' ?s \<noteq> None" by simp
  have i': "ConnectorStep.id' ?n = None" by simp
  have l: "lower (replace (replace ''Fetch'' CHR '' '' CHR ''_'') CHR ''-'' CHR ''_'') = ''fetch''"
    by code_simp
  note t = id_None_branch_reachability [of ?d ?d' ?s ?j ?s ?s ?n]
  from t n have 1: "isl (validate_ConnectorStep ?d)" by blast
  from t f have 2: "validate_ConnectorStep ?d' = Inr ?s" by blast
  from t i have 4: "model_validate_ConnectorStep (Instance ?s) = Inr ?s" by blast
  from t i' have "model_validate_ConnectorStep (Instance ?n) =
      Inr (?n\<lparr>ConnectorStep.id' := Some (lower (replace (replace (ConnectorStep.name ?n)
            CHR '' '' CHR ''_'') CHR ''-'' CHR ''_''))\<rparr>)"
    by blast
  then have 5: "model_validate_ConnectorStep (Instance ?n) = Inr ?s" by (simp add: l)
  from 1 2 m 4 5 show ?thesis by blast
qed

text \<open>
  The counterexample to C8 as stated: an instance named \<^verbatim>\<open>My Step-One\<close> whose \<^verbatim>\<open>id\<close>
  is \<^verbatim>\<open>None\<close> is validated successfully, and the validator takes the branch: the step
  comes back with the derived id \<^verbatim>\<open>my_step_one\<close>.
\<close>

theorem id_None_branch_reachability_counterexample:
  "ConnectorStep.id'
     \<lparr>ConnectorStep.id' = None, ConnectorStep.name = ''My Step-One'',
      ConnectorStep.description = None, connection_source = ''user:my_db'',
      run = TestConnection \<lparr>TestConnectionAction.action = ''test_connection''\<rparr>,
      outputs = None, depends_on = None, if_condition = None,
      ConnectorStep.cache_config = None\<rparr> = None \<and>
   model_validate_ConnectorStep (Instance
     \<lparr>ConnectorStep.id' = None, ConnectorStep.name = ''My Step-One'',
      ConnectorStep.description = None, connection_source = ''user:my_db'',
      run = TestConnection \<lparr>TestConnectionAction.action = ''test_connection''\<rparr>,
      outputs = None, depends_on = None, if_condition = None,
      ConnectorStep.cache_config = None\<rparr>) =
   Inr \<lparr>ConnectorStep.id' = Some ''my_step_one'', ConnectorStep.name = ''My Step-One'',
      ConnectorStep.description = None, connection_source = ''user:my_db'',
      run = TestConnection \<lparr>TestConnectionAction.action = ''test_connection''\<rparr>,
      outputs = None, depends_on = None, if_condition = None,
      ConnectorStep.cache_config = None\<rparr>"
proof -
  have "default_id ''My Step-One'' = ''my_step_one''" by code_simp
  then show ?thesis by (simp add: model_validate_ConnectorStep_def set_default_id_def)
qed

subsection \<open>The tag of the action\<close>

lemma tag_TestConnection:
  "validate_TestConnectionAction d = Inr a \<Longrightarrow>
   TestConnectionAction.action a = ''test_connection''"
  by (auto simp: validate_TestConnectionAction_def ap_Inr_iff required_Inr_iff v_literal_Inr_iff)

lemma tag_BrowsePath:
  "validate_BrowsePathAction d = Inr a \<Longrightarrow> BrowsePathAction.action a = ''browse_path''"
  by (auto simp: validate_BrowsePathAction_def ap_Inr_iff required_Inr_iff v_literal_Inr_iff)

lemma tag_ReadContent:
  "validate_ReadContentAction d = Inr a \<Longrightarrow> ReadContentAction.action a = ''read_content''"
  by (auto simp: validate_ReadContentAction_def ap_Inr_iff required_Inr_iff v_literal_Inr_iff)

lemma tag_RunSqlQuery:
  "validate_RunSqlQueryAction d = Inr a \<Longrightarrow> RunSqlQueryAction.action a = ''run_sql_query''"
  by (auto simp: validate_RunSqlQueryAction_def ap_Inr_iff required_Inr_iff v_literal_Inr_iff)

lemma tag_RunDeclarative:
  "validate_RunDeclarativeAction d = Inr a \<Longrightarrow>
   RunDeclarativeAction.action a = ''run_declarative_action''"
  by (auto simp: validate_RunDeclarativeAction_def ap_Inr_iff required_Inr_iff v_literal_Inr_iff)

lemma tag_AggregateContent:
  "validate_AggregateContentAction d = Inr a \<Longrightarrow>
   AggregateContentAction.action a = ''aggregate_content''"
  by (auto simp: validate_AggregateContentAction_def and_then_Inr_iff
      check_at_least_one_source_def AggregateContentAction_fields_def ap_Inr_iff
      required_Inr_iff v_literal_Inr_iff split: if_splits)

lemma tag_RunPythonScript:
  "validate_RunPythonScriptAction d = Inr a \<Longrightarrow>
   RunPythonScriptAction.action a = ''run_python_script''"
  by (auto simp: validate_RunPythonScriptAction_def ap_Inr_iff required_Inr_iff v_literal_Inr_iff)

lemma tag_WriteFiles:
  "validate_WriteFilesAction d = Inr a \<Longrightarrow> WriteFilesAction.action a = ''write_files''"
  by (auto simp: validate_WriteFilesAction_def ap_Inr_iff required_Inr_iff v_literal_Inr_iff)

lemma tag_RunTransform:
  "validate_RunTransformAction d = Inr a \<Longrightarrow> RunTransformAction.action a = ''run_transform''"
  by (auto simp: validate_RunTransformAction_def ap_Inr_iff required_Inr_iff v_literal_Inr_iff)

lemmas tag_lemmas = tag_TestConnection tag_BrowsePath tag_ReadContent tag_RunSqlQuery
  tag_RunDeclarative tag_AggregateContent tag_RunPythonScript tag_WriteFiles tag_RunTransform

lemma validate_AnyConnectorAction_tag:
  assumes "validate_AnyConnectorAction x = Inr u"
  shows "\<exists>kvs. x = JDict kvs \<and> map_of kvs ''action'' = Some (JStr (action_tag u)) \<and>
           action_tag u \<in> set action_tags"
proof (cases x)
  case (JDict kvs)
  with assms obtain t where t: "map_of kvs ''action'' = Some t"
    by (auto simp: validate_AnyConnectorAction_def Let_def split: option.splits)
  from assms JDict t have "t = JStr (action_tag u) \<and> action_tag u \<in> set action_tags"
    by (auto simp: validate_AnyConnectorAction_def Let_def variant_Inr_iff action_tags_def
        tag_lemmas split: if_splits)
  with JDict t show ?thesis by simp
qed (use assms in \<open>simp_all add: validate_AnyConnectorAction_def\<close>)

lemma validate_AnyConnectorAction_bad_tag:
  assumes "map_of kvs ''action'' \<notin> (\<lambda>t. Some (JStr t)) ` set action_tags"
  shows "validate_AnyConnectorAction (JDict kvs) = Inl [([], UnionTagInvalid)] \<or>
         validate_AnyConnectorAction (JDict kvs) = Inl [([], UnionTagNotFound)]"
  using assms
  by (auto simp: validate_AnyConnectorAction_def Let_def action_tags_def split: option.splits)

text \<open>
  C4. The action of a step is a closed tagged union: there are nine distinct tags, the
  \<^verbatim>\<open>run\<close> field of every constructed step carries one of them, the one given under
  \<^verbatim>\<open>action\<close> in the input, and a step whose \<^verbatim>\<open>run\<close> mapping has another tag (or none)
  is rejected by validation, when the step is constructed.
\<close>

theorem action_union_closed:
  "distinct action_tags \<and> length action_tags = 9 \<and>
   (validate_ConnectorStep d = Inr s \<longrightarrow>
      action_tag (run s) \<in> set action_tags \<and>
      (\<exists>kvs. d ''run'' = Some (JDict kvs) \<and>
         map_of kvs ''action'' = Some (JStr (action_tag (run s))))) \<and>
   (d' ''run'' = Some (JDict kvs') \<and>
    map_of kvs' ''action'' \<notin> (\<lambda>t. Some (JStr t)) ` set action_tags \<longrightarrow>
      isl (validate_ConnectorStep d') \<and>
      (([Key ''run''], UnionTagInvalid) \<in> set (errors_of (validate_ConnectorStep d')) \<or>
       ([Key ''run''], UnionTagNotFound) \<in> set (errors_of (validate_ConnectorStep d'))))"
proof (intro conjI impI)
  show "distinct action_tags" by (simp add: action_tags_def)
  show "length action_tags = 9" by (simp add: action_tags_def)
next
  assume v: "validate_ConnectorStep d = Inr s"
  then have "ConnectorStep_fields d = Inr s" by (simp add: validate_ConnectorStep_eq_fields)
  from ConnectorStep_fields_run [OF this] obtain x
    where x: "d ''run'' = Some x" "validate_AnyConnectorAction x = Inr (run s)" by blast
  from validate_AnyConnectorAction_tag [OF x(2)] x(1)
  show "action_tag (run s) \<in> set action_tags"
    and "\<exists>kvs. d ''run'' = Some (JDict kvs) \<and>
         map_of kvs ''action'' = Some (JStr (action_tag (run s)))"
    by auto
next
  assume a: "d' ''run'' = Some (JDict kvs') \<and>
    map_of kvs' ''action'' \<notin> (\<lambda>t. Some (JStr t)) ` set action_tags"
  then have r: "d' ''run'' = Some (JDict kvs')" by simp
  from a validate_AnyConnectorAction_bad_tag [of kvs']
  have "validate_AnyConnectorAction (JDict kvs') = Inl [([], UnionTagInvalid)] \<or>
         validate_AnyConnectorAction (JDict kvs') = Inl [([], UnionTagNotFound)]" by simp
  with r run_error [of d' "JDict kvs'" UnionTagInvalid]
    run_error [of d' "JDict kvs'" UnionTagNotFound]
  show e: "([Key ''run''], UnionTagInvalid) \<in> set (errors_of (validate_ConnectorStep d')) \<or>
       ([Key ''run''], UnionTagNotFound) \<in> set (errors_of (validate_ConnectorStep d'))"
    by blast
  then have "errors_of (validate_ConnectorStep d') \<noteq> []" by auto
  then show "isl (validate_ConnectorStep d')" by (rule isl_of_errors)
qed

theorem action_union_closed_witness:
  "validate_ConnectorStep
    [''id'' \<mapsto> JStr ''a'', ''name'' \<mapsto> JStr ''A'', ''connection_source'' \<mapsto> JStr ''user:db'',
     ''run'' \<mapsto> JDict [(''action'', JStr ''test_connection'')]] = Inr
      \<lparr>ConnectorStep.id' = Some ''a'', ConnectorStep.name = ''A'',
       ConnectorStep.description = None, connection_source = ''user:db'',
       run = TestConnection \<lparr>TestConnectionAction.action = ''test_connection''\<rparr>,
       outputs = None, depends_on = None, if_condition = None,
       ConnectorStep.cache_config = None\<rparr> \<and>
   action_tag (run \<lparr>ConnectorStep.id' = Some ''a'', ConnectorStep.name = ''A'',
       ConnectorStep.description = None, connection_source = ''user:db'',
       run = TestConnection \<lparr>TestConnectionAction.action = ''test_connection''\<rparr>,
       outputs = None, depends_on = None, if_condition = None,
       ConnectorStep.cache_config = None\<rparr>) = ''test_connection'' \<and>
   [''id'' \<mapsto> JStr ''a'', ''name'' \<mapsto> JStr ''A'', ''connection_source'' \<mapsto> JStr ''user:db'',
    ''run'' \<mapsto> JDict [(''action'', JStr ''launch_missiles'')]] ''run'' =
     Some (JDict [(''action'', JStr ''launch_missiles'')]) \<and>
   map_of [(''action'', JStr ''launch_missiles'')] ''action'' \<notin>
     (\<lambda>t. Some (JStr t)) ` set action_tags \<and>
   isl (validate_ConnectorStep
    [''id'' \<mapsto> JStr ''a'', ''name'' \<mapsto> JStr ''A'', ''connection_source'' \<mapsto> JStr ''user:db'',
     ''run'' \<mapsto> JDict [(''action'', JStr ''launch_missiles'')]])"
proof -
  let ?d = "[''id'' \<mapsto> JStr ''a'', ''name'' \<mapsto> JStr ''A'',
     ''connection_source'' \<mapsto> JStr ''user:db'',
     ''run'' \<mapsto> JDict [(''action'', JStr ''test_connection'')]]"
  let ?s = "\<lparr>ConnectorStep.id' = Some ''a'', ConnectorStep.name = ''A'',
       ConnectorStep.description = None, connection_source = ''user:db'',
       run = TestConnection \<lparr>TestConnectionAction.action = ''test_connection''\<rparr>,
       outputs = None, depends_on = None, if_condition = None,
       ConnectorStep.cache_config = None\<rparr>"
  let ?d' = "[''id'' \<mapsto> JStr ''a'', ''name'' \<mapsto> JStr ''A'',
     ''connection_source'' \<mapsto> JStr ''user:db'',
     ''run'' \<mapsto> JDict [(''action'', JStr ''launch_missiles'')]]"
  let ?kvs = "[(''action'', JStr ''launch_missiles'')]"
  have v: "validate_ConnectorStep ?d = Inr ?s"
    by (simp add: validate_ConnectorStep_def ConnectorStep_fields_def required_def
        with_default_def at_def ap_def map_result_def validate_AnyConnectorAction_def
        variant_def validate_TestConnectionAction_def v_literal_def set_default_id_def)
  have r: "?d' ''run'' = Some (JDict ?kvs)" by simp
  have m: "map_of ?kvs ''action'' \<notin> (\<lambda>t. Some (JStr t)) ` set action_tags"
    by (simp add: action_tags_def)
  have t: "action_tag (run ?s) = ''test_connection''" by simp
  note a = action_union_closed [of ?d ?s ?d' ?kvs]
  from a r m have "isl (validate_ConnectorStep ?d')" by blast
  with v t r m show ?thesis by blast
qed

section \<open>Scripts\<close>


lemma ConnectorScript_parts:
  assumes "validate_ConnectorScript d = Inr s"
  obtains n de st cc si where
    "required d ''name'' v_str = Inr n"
    "with_default d ''description'' None (v_optional v_str) = Inr de"
    "required d ''steps'' (v_list (v_model validate_ConnectorStep)) = Inr st"
    "with_default d ''cache_config'' None (v_optional (v_dict v_any)) = Inr cc"
    "with_default d ''script_input'' (Some []) (v_optional (v_dict v_any)) = Inr si"
    "s = \<lparr>ConnectorScript.name = n, ConnectorScript.description = de, steps = st,
          ConnectorScript.cache_config = cc, script_input = si\<rparr>"
  using assms by (auto simp: validate_ConnectorScript_def ap_Inr_iff)





subsection \<open>The script input\<close>

text \<open>
  C6 (as amended). Every constructed \<^verbatim>\<open>ConnectorScript\<close> carries an optional
  \<^verbatim>\<open>script_input\<close>: the empty mapping when the input has none, \<^verbatim>\<open>None\<close> when given as
  \<^verbatim>\<open>None\<close>, and otherwise the mapping given, from names to arbitrary values; any mapping
  is accepted in its place. No parameter spec (type, required, default) is imposed on the
  values. The claim as stated fails: see the counterexample below.
\<close>

theorem script_input_any_mapping:
  assumes "validate_ConnectorScript d = Inr s"
  shows "(d ''script_input'' = None \<and> script_input s = Some [] \<or>
     d ''script_input'' = Some JNull \<and> script_input s = None \<or>
     (\<exists>kvs. d ''script_input'' = Some (JDict kvs) \<and> script_input s = Some kvs)) \<and>
    validate_ConnectorScript (d(''script_input'' \<mapsto> JDict kvs')) =
      Inr (s\<lparr>script_input := Some kvs'\<rparr>)"
proof
  from assms obtain si where
    si: "with_default d ''script_input'' (Some []) (v_optional (v_dict v_any)) = Inr si"
      "script_input s = si"
    by (rule ConnectorScript_parts) simp
  show "d ''script_input'' = None \<and> script_input s = Some [] \<or>
     d ''script_input'' = Some JNull \<and> script_input s = None \<or>
     (\<exists>kvs. d ''script_input'' = Some (JDict kvs) \<and> script_input s = Some kvs)"
  proof (cases "d ''script_input''")
    case None
    with si show ?thesis by (simp add: with_default_def)
  next
    case (Some x)
    with si have "v_optional (v_dict v_any) x = Inr (script_input s)"
      by (simp add: with_default_def at_Inr_iff)
    with Some show ?thesis
      by (cases x)
         (auto simp: v_optional_def map_result_Inr_iff v_dict_def v_values_any)
  qed
next
  have st: "with_default (d(''script_input'' \<mapsto> JDict kvs')) ''script_input'' (Some [])
      (v_optional (v_dict v_any)) = Inr (Some kvs')"
    by (simp add: with_default_def at_def v_optional_def v_dict_def v_values_any map_result_def)
  from assms show "validate_ConnectorScript (d(''script_input'' \<mapsto> JDict kvs')) =
      Inr (s\<lparr>script_input := Some kvs'\<rparr>)"
    by (rule ConnectorScript_parts)
       (simp add: validate_ConnectorScript_def required_upd_other with_default_upd_other st
         ap_Inr_Inr)
qed

text \<open>
  The counterexample to C6 as stated: a script is constructed whose \<^verbatim>\<open>script_input\<close>
  maps \<^verbatim>\<open>limit\<close> to the integer 5, which is no parameter spec.
\<close>

theorem script_input_any_mapping_counterexample:
  "map_result script_input
     (validate_ConnectorScript
       [''name'' \<mapsto> JStr ''s'', ''steps'' \<mapsto> JList [],
        ''script_input'' \<mapsto> JDict [(''limit'', JInt 5)]]) =
     Inr (Some [(''limit'', JInt 5)]) \<and>
   \<not> claimed_parameter_spec (JInt 5)"
  by (simp add: validate_ConnectorScript_def required_def with_default_def at_def ap_def
        map_result_def v_list_def v_model_def validate_ConnectorStep_def
        ConnectorStep_fields_def validate_AnyConnectorAction_def variant_def
        validate_TestConnectionAction_def v_literal_def set_default_id_def v_optional_def
        v_dict_def v_any_def claimed_parameter_spec_def)

theorem script_input_any_mapping_witness:
  "validate_ConnectorScript [''name'' \<mapsto> JStr ''s'', ''steps'' \<mapsto> JList []] =
     Inr \<lparr>ConnectorScript.name = ''s'', ConnectorScript.description = None,
       steps = [], ConnectorScript.cache_config = None, script_input = Some []\<rparr> \<and>
   validate_ConnectorScript
     ([''name'' \<mapsto> JStr ''s'', ''steps'' \<mapsto> JList []]
       (''script_input'' \<mapsto> JDict [(''limit'', JInt 5)])) =
     Inr \<lparr>ConnectorScript.name = ''s'', ConnectorScript.description = None,
       steps = [], ConnectorScript.cache_config = None,
       script_input = Some [(''limit'', JInt 5)]\<rparr>"
proof -
  let ?d = "[''name'' \<mapsto> JStr ''s'', ''steps'' \<mapsto> JList []]"
  let ?s = "\<lparr>ConnectorScript.name = ''s'', ConnectorScript.description = None,
       steps = [], ConnectorScript.cache_config = None, script_input = Some []\<rparr>"
  have v: "validate_ConnectorScript ?d = Inr ?s"
    by (simp add: validate_ConnectorScript_def required_def with_default_def at_def ap_def
        map_result_def v_list_def v_model_def validate_ConnectorStep_def
        ConnectorStep_fields_def validate_AnyConnectorAction_def variant_def
        validate_TestConnectionAction_def v_literal_def set_default_id_def v_optional_def
        v_dict_def v_any_def)
  from script_input_any_mapping [OF v, of "[(''limit'', JInt 5)]"] v show ?thesis by simp
qed

section \<open>The notebook module\<close>

text \<open>
  C10. \<^verbatim>\<open>notebook.py\<close> imports \<^verbatim>\<open>ScriptInputParameter\<close> from \<^verbatim>\<open>connector_script\<close>, which
  binds no such name: loading the module fails with an \<^verbatim>\<open>ImportError\<close> for that name,
  and so does every construction of a \<^verbatim>\<open>ContextualPage\<close>, whatever its arguments.
\<close>

theorem notebook_import_fails:
  "notebook_namespace = Inl (ImportError ''ScriptInputParameter'' ''.connector_script'') \<and>
   construct_ContextualPage vparam d = Inl (ImportError ''ScriptInputParameter'' ''.connector_script'')"
proof -
  have ns: "connector_script_namespace =
    Inr [''Any'', ''Dict'', ''List'', ''Literal'', ''Optional'', ''Union'',
         ''BaseModel'', ''Field'', ''model_validator'',
         ''RunSqlQueryAction'', ''TestConnectionAction'', ''BrowsePathAction'',
         ''ReadContentAction'', ''RunDeclarativeAction'', ''AggregateContentAction'',
         ''RunPythonScriptAction'', ''FileToWrite'', ''WriteFilesAction'',
         ''RunTransformAction'', ''AnyConnectorAction'', ''ConnectorStep'', ''ConnectorScript'']"
    by (simp add: connector_script_namespace_def connector_script_module_def external_modules_def)
  have nb: "notebook_namespace = Inl (ImportError ''ScriptInputParameter'' ''.connector_script'')"
    by (simp add: notebook_namespace_def notebook_module_def package_modules_def ns external_modules_def)
  show ?thesis by (simp add: nb construct_ContextualPage_def)
qed

theorem notebook_import_fails_witness:
  "construct_ContextualPage v_any Map.empty =
     Inl (ImportError ''ScriptInputParameter'' ''.connector_script'')"
  using notebook_import_fails [of v_any Map.empty] by simp

end
